theory Spec2Isabelle
  imports Main "HOL-Library.Word"
begin

section \<open>udiald: the AT response reader (tty.c)\<close>

text \<open>
  The header udiald.h is not part of the sources at hand, so the sizes of the arrays of
  \<^verbatim>\<open>struct udiald_tty_read\<close> and the width of \<^verbatim>\<open>size_t\<close> are parameters of the model. A C
  array has at least one element, so the three lengths are positive wherever it matters.
\<close>

record tty_dims =
  raw_buf_len :: nat      \<comment> \<open>\<^verbatim>\<open>lengthof(r->raw_buf)\<close>\<close>
  raw_lines_len :: nat    \<comment> \<open>\<^verbatim>\<open>lengthof(r->raw_lines)\<close>\<close>
  flat_buf_len :: nat     \<comment> \<open>\<^verbatim>\<open>lengthof(r->flat_buf)\<close>\<close>
  size_bits :: nat        \<comment> \<open>width of \<^verbatim>\<open>size_t\<close>\<close>

text \<open>
  \<^verbatim>\<open>struct udiald_tty_read\<close>. The arrays are functions from the index; the line pointers are
  offsets into \<open>raw_buf\<close>, \<open>result_line\<close> is \<open>None\<close> for \<^verbatim>\<open>NULL\<close>. \<open>flat_buf\<close> holds the C string
  that the scratch buffer contains.
\<close>

record tty_read =
  raw_buf :: "nat \<Rightarrow> char"
  raw_lines :: "nat \<Rightarrow> nat"
  lines :: nat
  result_line :: "nat option"
  flat_buf :: string

datatype udiald_atres =
  UDIALD_AT_OK | UDIALD_AT_CONNECT | UDIALD_AT_ERROR | UDIALD_AT_CMEERROR
  | UDIALD_AT_NODIALTONE | UDIALD_AT_BUSY | UDIALD_AT_NOCARRIER | UDIALD_AT_NOT_SUPPORTED

text \<open>The table \<^verbatim>\<open>ttyresstr\<close>, in the order of its initialisers.\<close>

definition ttyresstr :: "(udiald_atres \<times> string) list" where
  "ttyresstr =
    [(UDIALD_AT_OK, ''OK''),
     (UDIALD_AT_CONNECT, ''CONNECT''),
     (UDIALD_AT_ERROR, ''ERROR''),
     (UDIALD_AT_CMEERROR, ''+CME ERROR''),
     (UDIALD_AT_NODIALTONE, ''NO DIALTONE''),
     (UDIALD_AT_BUSY, ''BUSY''),
     (UDIALD_AT_NOCARRIER, ''NO CARRIER''),
     (UDIALD_AT_NOT_SUPPORTED, ''COMMAND NOT SUPPORT'')]"

definition NUL :: char where "NUL = CHR 0x00"
definition CR :: char where "CR = CHR 0x0D"
definition LF :: char where "LF = CHR 0x0A"

text \<open>
  The C string that starts at offset \<open>off\<close> of the buffer: the bytes up to the first NUL, read
  no further than the end of the buffer.
\<close>

fun cstr_upto :: "(nat \<Rightarrow> char) \<Rightarrow> nat \<Rightarrow> nat \<Rightarrow> string" where
  "cstr_upto buf off 0 = []"
| "cstr_upto buf off (Suc n) =
     (if buf off = NUL then [] else buf off # cstr_upto buf (Suc off) n)"

definition cstr :: "tty_dims \<Rightarrow> (nat \<Rightarrow> char) \<Rightarrow> nat \<Rightarrow> string" where
  "cstr d buf off = cstr_upto buf off (raw_buf_len d - off)"

text \<open>
  \<^verbatim>\<open>!strncmp(s, p, strlen(p))\<close> for a C string \<open>s\<close> and a NUL-free \<open>p\<close>: the first \<open>strlen(p)\<close>
  bytes of \<open>s\<close> are those of \<open>p\<close>.
\<close>

definition strncmp_eq :: "string \<Rightarrow> string \<Rightarrow> bool" where
  "strncmp_eq s p = (take (length p) s = p)"

text \<open>The loop over \<^verbatim>\<open>ttyresstr\<close>: the first entry that the line begins with.\<close>

fun match_atres :: "(udiald_atres \<times> string) list \<Rightarrow> string \<Rightarrow> udiald_atres option" where
  "match_atres [] s = None"
| "match_atres ((t, p) # ps) s = (if strncmp_eq s p then Some t else match_atres ps s)"

datatype errno = EAGAIN | EWOULDBLOCK | ETIMEDOUT | ERANGE | EIO | EBADF | EINTR

text \<open>
  What the serial line does while the reader runs. One event per \<^verbatim>\<open>poll\<close>: the call fails with an
  errno, or the descriptor becomes readable after some milliseconds; then successive one-byte
  \<^verbatim>\<open>read\<close>s deliver the bytes, and the read after the last byte returns 0 or fails.
  A \<^verbatim>\<open>read\<close> that returns 0 is the end of file: the line has hung up and stays so, every later
  \<^verbatim>\<open>poll\<close> returns at once and every later \<^verbatim>\<open>read\<close> returns 0 again, whatever the list holds
  after that event. An exhausted event list is a line that stays silent for ever.
\<close>

datatype read_end = ReadEof | ReadErr errno

datatype poll_ev = PollFail errno | PollReady nat "char list" read_end

text \<open>
  How a call of the reader ends: a terminator tag, the failure indicator with its errno, a
  \<^verbatim>\<open>read\<close> handed the address past the end of \<open>raw_buf\<close> (undefined in C; the model stops
  there), a \<^verbatim>\<open>poll\<close> without timeout on a silent line, which never returns, or the outer loop
  going round for ever on a line that has hung up.
\<close>

datatype get_result = Tag udiald_atres | Fail errno | Overrun | Blocked | Spin

text \<open>The locals of \<^verbatim>\<open>udiald_tty_get\<close> together with the structure it fills.\<close>

record tty_state =
  rd :: tty_read
  c :: nat               \<comment> \<open>the write cursor, an offset into \<open>raw_buf\<close>\<close>
  rem :: int             \<comment> \<open>a \<^verbatim>\<open>size_t\<close>: kept in \<open>0 ..< 2 ^ size_bits\<close>\<close>
  in_newline :: bool

datatype step = Cont tty_state | Stop get_result tty_read

text \<open>\<^verbatim>\<open>rem -= rxed; c += rxed\<close> with \<open>rxed = 1\<close>; the subtraction wraps as \<^verbatim>\<open>size_t\<close> does.\<close>

definition advance :: "tty_dims \<Rightarrow> tty_state \<Rightarrow> tty_state" where
  "advance d s =
     s\<lparr>rem := (rem s - 1) mod 2 ^ size_bits d, c := c s + 1\<rparr>"

text \<open>
  The body of the inner loop for one byte \<open>ch\<close> that \<^verbatim>\<open>read(fd, c, 1)\<close> has just stored at the
  cursor.
\<close>

definition tty_byte :: "tty_dims \<Rightarrow> string option \<Rightarrow> tty_state \<Rightarrow> char \<Rightarrow> step" where
  "tty_byte d result_prefix s ch =
    (let r = (rd s)\<lparr>raw_buf := (raw_buf (rd s))(c s := ch)\<rparr> in
     if ch = CR \<or> ch = LF then
       if \<not> in_newline s then
         let r1 = r\<lparr>raw_buf := (raw_buf r)(c s := NUL)\<rparr>;
             start = raw_lines r1 (lines r1)
         in if raw_buf r1 start = CHR ''^'' then
              Cont (s\<lparr>rd := r1, c := start, in_newline := True\<rparr>)
            else
              let r2 = r1\<lparr>lines := lines r1 + 1\<rparr>;
                  r3 = (case result_prefix of
                          None \<Rightarrow> r2
                        | Some p \<Rightarrow>
                            if result_line r2 = None \<and> strncmp_eq (cstr d (raw_buf r2) start) p
                            then r2\<lparr>result_line := Some start\<rparr> else r2)
              in (case match_atres ttyresstr (cstr d (raw_buf r3) start) of
                    Some t \<Rightarrow> Stop (Tag t) r3
                  | None \<Rightarrow> Cont (advance d (s\<lparr>rd := r3, in_newline := True\<rparr>)))
       else Cont (s\<lparr>rd := r\<rparr>)
     else if in_newline s then
       if lines r = raw_lines_len d - 1 then Stop (Fail ERANGE) r
       else Cont (advance d (s\<lparr>rd := r\<lparr>raw_lines := (raw_lines r)(lines r := c s)\<rparr>,
                                in_newline := False\<rparr>))
     else Cont (advance d (s\<lparr>rd := r\<rparr>)))"

text \<open>
  The inner loop \<^verbatim>\<open>while ((rxed = read(fd, c, 1)) > 0)\<close> over the bytes that are there. The loop
  does not look at \<open>rem\<close>: a byte is stored wherever the cursor stands.
\<close>

fun tty_read_loop :: "tty_dims \<Rightarrow> string option \<Rightarrow> tty_state \<Rightarrow> char list \<Rightarrow> step" where
  "tty_read_loop d result_prefix s [] = Cont s"
| "tty_read_loop d result_prefix s (ch # bs) =
     (if raw_buf_len d \<le> c s then Stop Overrun (rd s)
      else case tty_byte d result_prefix s ch of
             Cont s' \<Rightarrow> tty_read_loop d result_prefix s' bs
           | Stop res r \<Rightarrow> Stop res r)"

text \<open>
  What a call returns: its result, the structure as it leaves it, the timeout handed to each
  \<^verbatim>\<open>poll\<close> in order, and the milliseconds spent inside \<^verbatim>\<open>poll\<close>.
\<close>

record get_out =
  outcome :: get_result
  filled :: tty_read
  polls :: "int list"
  waited :: nat

text \<open>\<^verbatim>\<open>poll(&pfd, 1, timeout)\<close> returns 0: the timeout is not negative and runs out first.\<close>

definition poll_expires :: "int \<Rightarrow> nat \<Rightarrow> bool" where
  "poll_expires timeout delay = (0 \<le> timeout \<and> timeout < int delay)"

text \<open>
  The outer loop \<^verbatim>\<open>while (rem > 0)\<close>. When the inner loop ends on a \<^verbatim>\<open>read\<close> that returns 0, no
  exit of the body is taken: the test after the inner loop looks for \<open>-1\<close> only. On the line
  that has hung up every further round polls, reads 0 bytes and leaves \<open>rem\<close> as it is, so
  with \<open>rem\<close> above 0 the call never returns; \<open>polls\<close> and \<open>waited\<close> then stand for the rounds up
  to the first such \<^verbatim>\<open>read\<close>.
\<close>

fun tty_poll_loop ::
  "tty_dims \<Rightarrow> string option \<Rightarrow> int \<Rightarrow> tty_state \<Rightarrow> int list \<Rightarrow> nat \<Rightarrow> poll_ev list \<Rightarrow> get_out"
where
  "tty_poll_loop d result_prefix timeout s ps w evs =
    (if rem s = 0 then \<lparr>outcome = Fail ERANGE, filled = rd s, polls = ps, waited = w\<rparr>
     else case evs of
       [] \<Rightarrow>
         if timeout < 0 then
           \<lparr>outcome = Blocked, filled = rd s, polls = ps @ [timeout], waited = w\<rparr>
         else
           \<lparr>outcome = Fail ETIMEDOUT, filled = rd s, polls = ps @ [timeout],
            waited = w + nat timeout\<rparr>
     | PollFail e # rest \<Rightarrow>
         \<lparr>outcome = Fail e, filled = rd s, polls = ps @ [timeout], waited = w\<rparr>
     | PollReady delay bs e # rest \<Rightarrow>
         if poll_expires timeout delay then
           \<lparr>outcome = Fail ETIMEDOUT, filled = rd s, polls = ps @ [timeout],
            waited = w + nat timeout\<rparr>
         else
           (case tty_read_loop d result_prefix s bs of
              Stop res r \<Rightarrow>
                \<lparr>outcome = res, filled = r, polls = ps @ [timeout], waited = w + delay\<rparr>
            | Cont s' \<Rightarrow>
                (case e of
                   ReadEof \<Rightarrow>
                     if rem s' = 0 then
                       \<lparr>outcome = Fail ERANGE, filled = rd s', polls = ps @ [timeout],
                        waited = w + delay\<rparr>
                     else
                       \<lparr>outcome = Spin, filled = rd s', polls = ps @ [timeout],
                        waited = w + delay\<rparr>
                 | ReadErr err \<Rightarrow>
                     if err \<noteq> EAGAIN \<and> err \<noteq> EWOULDBLOCK then
                       \<lparr>outcome = Fail err, filled = rd s', polls = ps @ [timeout],
                        waited = w + delay\<rparr>
                     else
                       tty_poll_loop d result_prefix timeout s' (ps @ [timeout]) (w + delay)
                         rest)))"

text \<open>
  \<^verbatim>\<open>udiald_tty_get\<close>. \<open>r\<close> is the caller's structure with whatever it holds; the call resets
  \<open>lines\<close> and \<open>result_line\<close> only.
\<close>

definition udiald_tty_get ::
  "tty_dims \<Rightarrow> tty_read \<Rightarrow> string option \<Rightarrow> int \<Rightarrow> poll_ev list \<Rightarrow> get_out" where
  "udiald_tty_get d r result_prefix timeout evs =
     tty_poll_loop d result_prefix timeout
       \<lparr>rd = r\<lparr>lines := 0, result_line := None\<rparr>, c = 0,
        rem = int (raw_buf_len d) mod 2 ^ size_bits d, in_newline = True\<rparr>
       [] 0 evs"


subsection \<open>The flattener\<close>

text \<open>
  The copy loop \<^verbatim>\<open>while (*in) if (flat != end) *flat++ = *in++;\<close> of
  \<^verbatim>\<open>udiald_tty_flatten_result\<close>. \<open>ins\<close> is the C string at \<^verbatim>\<open>in\<close>, \<open>out\<close> the bytes written to
  \<open>flat_buf\<close> so far, \<open>cap\<close> the distance from \<open>flat_buf\<close> to \<^verbatim>\<open>end\<close>. When the scratch buffer is
  full the body does nothing and \<^verbatim>\<open>in\<close> stays where it is. The value \<open>None\<close> is a loop
  that never ends.
\<close>

partial_function (option) flatten_copy :: "nat \<Rightarrow> string \<Rightarrow> string \<Rightarrow> string option" where
  "flatten_copy cap ins out =
     (case ins of
        [] \<Rightarrow> Some out
      | ch # rest \<Rightarrow>
          if length out \<noteq> cap then flatten_copy cap rest (out @ [ch])
          else flatten_copy cap ins out)"

declare flatten_copy.simps [code]

text \<open>\<^verbatim>\<open>if (flat != end) *flat++ = ch;\<close>\<close>

definition flat_push :: "nat \<Rightarrow> string \<Rightarrow> char \<Rightarrow> string" where
  "flat_push cap out ch = (if length out \<noteq> cap then out @ [ch] else out)"

definition DQUOTE :: char where "DQUOTE = CHR 0x22"

text \<open>
  The \<^verbatim>\<open>for\<close> loop over the lines, from line \<open>i\<close> on; the list holds the C strings at
  \<open>raw_lines[i]\<close>, \<open>raw_lines[i + 1]\<close>, ..., so that \<open>ls \<noteq> []\<close> is \<^verbatim>\<open>i != r->lines - 1\<close>.
\<close>

fun flatten_lines :: "nat \<Rightarrow> string list \<Rightarrow> string \<Rightarrow> string option" where
  "flatten_lines cap [] out = Some out"
| "flatten_lines cap (l # ls) out =
     (case flatten_copy cap l (flat_push cap out DQUOTE) of
        None \<Rightarrow> None
      | Some out2 \<Rightarrow>
          let out3 = flat_push cap out2 DQUOTE;
              out5 = (if ls \<noteq> [] then flat_push cap (flat_push cap out3 (CHR '','')) (CHR '' '')
                      else out3)
          in if length out5 = cap then Some out5 else flatten_lines cap ls out5)"

text \<open>The committed lines of a structure, as C strings.\<close>

definition lines_of :: "tty_dims \<Rightarrow> tty_read \<Rightarrow> string list" where
  "lines_of d r = map (\<lambda>i. cstr d (raw_buf r) (raw_lines r i)) [0 ..< lines r]"

text \<open>
  \<^verbatim>\<open>udiald_tty_flatten_result\<close>: the structure with its scratch buffer filled and
  NUL-terminated, or \<open>None\<close> when the call never returns.
\<close>

definition udiald_tty_flatten_result :: "tty_dims \<Rightarrow> tty_read \<Rightarrow> tty_read option" where
  "udiald_tty_flatten_result d r =
     map_option (\<lambda>s. r\<lparr>flat_buf := s\<rparr>) (flatten_lines (flat_buf_len d - 1) (lines_of d r) [])"


section \<open>udiald: the session (udiald.c)\<close>

subsection \<open>Codes, modes and the configuration store\<close>

text \<open>
  Modelled from the spec: the error kinds of udiald.h, which is missing. Their order and
  their exit codes are those of the return codes listed by \<^verbatim>\<open>udiald_usage\<close>.
\<close>

datatype udiald_error =
  UDIALD_OK | UDIALD_EINVAL | UDIALD_EINTERNAL | UDIALD_ESIGNALED | UDIALD_ENODEV
  | UDIALD_EMODEM | UDIALD_ESIM | UDIALD_EUNLOCK | UDIALD_EDIAL | UDIALD_EAUTH
  | UDIALD_EPPP | UDIALD_ENETWORK

fun exit_status :: "udiald_error \<Rightarrow> int" where
  "exit_status UDIALD_OK = 0"
| "exit_status UDIALD_EINVAL = 1"
| "exit_status UDIALD_EINTERNAL = 2"
| "exit_status UDIALD_ESIGNALED = 3"
| "exit_status UDIALD_ENODEV = 4"
| "exit_status UDIALD_EMODEM = 5"
| "exit_status UDIALD_ESIM = 6"
| "exit_status UDIALD_EUNLOCK = 7"
| "exit_status UDIALD_EDIAL = 8"
| "exit_status UDIALD_EAUTH = 9"
| "exit_status UDIALD_EPPP = 10"
| "exit_status UDIALD_ENETWORK = 11"

datatype udiald_app =
  UDIALD_APP_CONNECT | UDIALD_APP_SCAN | UDIALD_APP_PROBE | UDIALD_APP_UNLOCK
  | UDIALD_APP_PINPUK | UDIALD_APP_DIAL | UDIALD_APP_LIST_DEVICES | UDIALD_APP_LIST_PROFILES

datatype udiald_flag = UDIALD_FLAG_SIGNALED | UDIALD_FLAG_TESTSTATE

datatype udiald_filter_flag = UDIALD_FILTER_VENDOR | UDIALD_FILTER_DEVICE | UDIALD_FILTER_PROFILE

text \<open>The modes, named as deviceconfig.h names the entries of \<^verbatim>\<open>modecmd\<close>.\<close>

datatype udiald_mode =
  UMTS_MODE_AUTO | UMTS_FORCE_UMTS | UMTS_FORCE_GPRS | UMTS_PREFER_UMTS | UMTS_PREFER_GPRS

text \<open>
  Modelled from the spec: \<^verbatim>\<open>udiald_modem_modestr\<close> (modem.c is missing), the names of the five
  tags.
\<close>

fun udiald_modem_modestr :: "udiald_mode \<Rightarrow> string" where
  "udiald_modem_modestr UMTS_MODE_AUTO = ''auto''"
| "udiald_modem_modestr UMTS_FORCE_UMTS = ''force-umts''"
| "udiald_modem_modestr UMTS_FORCE_GPRS = ''force-gprs''"
| "udiald_modem_modestr UMTS_PREFER_UMTS = ''prefer-umts''"
| "udiald_modem_modestr UMTS_PREFER_GPRS = ''prefer-gprs''"

definition all_modes :: "udiald_mode list" where
  "all_modes = [UMTS_MODE_AUTO, UMTS_FORCE_UMTS, UMTS_FORCE_GPRS, UMTS_PREFER_UMTS,
                UMTS_PREFER_GPRS]"

text \<open>
  Modelled from the spec: \<^verbatim>\<open>udiald_modem_modeval\<close> (modem.c is missing), the inverse of the
  naming; \<open>None\<close> is the invalid sentinel \<open>-1\<close> that an unknown name maps to.
\<close>

definition udiald_modem_modeval :: "string \<Rightarrow> udiald_mode option" where
  "udiald_modem_modeval name = find (\<lambda>m. udiald_modem_modestr m = name) all_modes"

text \<open>
  Modelled from the spec: the external configuration store (config.c and the ucix layer are
  missing), a key/value store addressed by section and option; the package is fixed. An option
  holds a string or a list of strings.
\<close>

datatype uci_value = UciString string | UciList "string list"

type_synonym uci_store = "string \<times> string \<Rightarrow> uci_value option"

definition UCI_SECTION_GLOBAL :: string where
  "UCI_SECTION_GLOBAL = ''udiald''"

definition ucix_get_option :: "uci_store \<Rightarrow> string \<Rightarrow> string \<Rightarrow> string option" where
  "ucix_get_option u sect opt =
     (case u (sect, opt) of Some (UciString v) \<Rightarrow> Some v | _ \<Rightarrow> None)"

definition ucix_add_option :: "uci_store \<Rightarrow> string \<Rightarrow> string \<Rightarrow> string \<Rightarrow> uci_store" where
  "ucix_add_option u sect opt v = u((sect, opt) \<mapsto> UciString v)"

definition ucix_revert :: "uci_store \<Rightarrow> string \<Rightarrow> string \<Rightarrow> uci_store" where
  "ucix_revert u sect opt = u((sect, opt) := None)"

definition ucix_append :: "uci_store \<Rightarrow> string \<Rightarrow> string \<Rightarrow> string \<Rightarrow> uci_store" where
  "ucix_append u sect opt v =
     u((sect, opt) \<mapsto> (case u (sect, opt) of Some (UciList vs) \<Rightarrow> UciList (vs @ [v])
                          | _ \<Rightarrow> UciList [v]))"

text \<open>Decimal output of \<^verbatim>\<open>%d\<close>/\<^verbatim>\<open>%i\<close> and input of \<^verbatim>\<open>atoi\<close>.\<close>

definition digit_char :: "nat \<Rightarrow> char" where
  "digit_char n = char_of (48 + n)"

fun show_nat :: "nat \<Rightarrow> string" where
  "show_nat n = (if n < 10 then [digit_char n] else show_nat (n div 10) @ [digit_char (n mod 10)])"

definition show_int :: "int \<Rightarrow> string" where
  "show_int i = (if i < 0 then CHR ''-'' # show_nat (nat (- i)) else show_nat (nat i))"

definition is_digit :: "char \<Rightarrow> bool" where
  "is_digit ch \<longleftrightarrow> (48::nat) \<le> of_char ch \<and> (of_char ch :: nat) \<le> 57"

definition digits_val :: "string \<Rightarrow> int" where
  "digits_val ds = foldl (\<lambda>acc ch. 10 * acc + (of_char ch - 48)) 0 ds"

definition is_space :: "char \<Rightarrow> bool" where
  "is_space ch \<longleftrightarrow> ch \<in> set [CHR '' '', CHR 0x09, CHR 0x0A, CHR 0x0B, CHR 0x0C, CHR 0x0D]"

definition atoi :: "string \<Rightarrow> int" where
  "atoi s =
     (case dropWhile is_space s of
        [] \<Rightarrow> 0
      | ch # rest \<Rightarrow>
          if ch = CHR ''-'' then - digits_val (takeWhile is_digit rest)
          else if ch = CHR ''+'' then digits_val (takeWhile is_digit rest)
          else digits_val (takeWhile is_digit (ch # rest)))"

subsection \<open>Profiles, modems and the session state\<close>

text \<open>\<^verbatim>\<open>struct umts_config\<close> and \<^verbatim>\<open>struct umts_profile\<close> of deviceconfig.h; a \<^verbatim>\<open>NULL\<close> is \<open>None\<close>.\<close>

record umts_config =
  ctlidx :: nat
  datidx :: nat
  modecmd :: "udiald_mode \<Rightarrow> string option"

record umts_profile =
  name :: string
  vendor :: "16 word"
  device :: "16 word"
  driver :: "string option"
  cfg :: umts_config

text \<open>The table \<^verbatim>\<open>profiles\<close> of deviceconfig.h, entry by entry.\<close>

definition huawei_syscfg :: "udiald_mode \<Rightarrow> string option" where
  "huawei_syscfg =
     [UMTS_MODE_AUTO \<mapsto> ''AT^SYSCFG=2,2,40000000,2,4'' @ [CR],
      UMTS_FORCE_UMTS \<mapsto> ''AT^SYSCFG=14,2,40000000,2,4'' @ [CR],
      UMTS_FORCE_GPRS \<mapsto> ''AT^SYSCFG=13,1,40000000,2,4'' @ [CR],
      UMTS_PREFER_UMTS \<mapsto> ''AT^SYSCFG=2,2,40000000,2,4'' @ [CR],
      UMTS_PREFER_GPRS \<mapsto> ''AT^SYSCFG=2,1,40000000,2,4'' @ [CR]]"

definition only_auto_empty :: "udiald_mode \<Rightarrow> string option" where
  "only_auto_empty = [UMTS_MODE_AUTO \<mapsto> []]"

definition profiles :: "umts_profile list" where
  "profiles =
    [\<lparr>name = ''Ericsson F3705G'', vendor = 0x0bdb, device = 0x1900, driver = None,
      cfg = \<lparr>ctlidx = 1, datidx = 0,
             modecmd = [UMTS_MODE_AUTO \<mapsto> ''AT+CFUN=1'' @ [CR],
                        UMTS_FORCE_UMTS \<mapsto> ''AT+CFUN=6'' @ [CR],
                        UMTS_FORCE_GPRS \<mapsto> ''AT+CFUN=5'' @ [CR]]\<rparr>\<rparr>,
     \<lparr>name = ''Alcatel X060s'', vendor = 0x1bbb, device = 0x0000, driver = None,
      cfg = \<lparr>ctlidx = 1, datidx = 2, modecmd = only_auto_empty\<rparr>\<rparr>,
     \<lparr>name = ''Huawei K3520'', vendor = 0x12d1, device = 0x1001, driver = None,
      cfg = \<lparr>ctlidx = 2, datidx = 0, modecmd = huawei_syscfg\<rparr>\<rparr>,
     \<lparr>name = ''Huawei E173'', vendor = 0x12d1, device = 0x1433, driver = None,
      cfg = \<lparr>ctlidx = 2, datidx = 0, modecmd = huawei_syscfg\<rparr>\<rparr>,
     \<lparr>name = ''Huawei generic'', vendor = 0x12d1, device = 0, driver = None,
      cfg = \<lparr>ctlidx = 1, datidx = 0, modecmd = huawei_syscfg\<rparr>\<rparr>,
     \<lparr>name = ''ZTE generic'', vendor = 0x19d2, device = 0, driver = None,
      cfg = \<lparr>ctlidx = 1, datidx = 2,
             modecmd = [UMTS_MODE_AUTO \<mapsto> ''AT+ZSNT=0,0,0'' @ [CR],
                        UMTS_FORCE_UMTS \<mapsto> ''AT+ZSNT=2,0,0'' @ [CR],
                        UMTS_FORCE_GPRS \<mapsto> ''AT+ZSNT=1,0,0'' @ [CR],
                        UMTS_PREFER_UMTS \<mapsto> ''AT+ZSNT=0,0,2'' @ [CR],
                        UMTS_PREFER_GPRS \<mapsto> ''AT+ZSNT=0,0,1'' @ [CR]]\<rparr>\<rparr>,
     \<lparr>name = ''Option generic'', vendor = 0, device = 0, driver = Some ''option'',
      cfg = \<lparr>ctlidx = 1, datidx = 0, modecmd = only_auto_empty\<rparr>\<rparr>,
     \<lparr>name = ''Sierra generic'', vendor = 0, device = 0, driver = Some ''sierra'',
      cfg = \<lparr>ctlidx = 0, datidx = 2, modecmd = only_auto_empty\<rparr>\<rparr>,
     \<lparr>name = ''HSO generic'', vendor = 0, device = 0, driver = Some ''hso'',
      cfg = \<lparr>ctlidx = 0, datidx = 3,
             modecmd = [UMTS_MODE_AUTO \<mapsto> ''at_opsys=2,2'' @ [CR],
                        UMTS_FORCE_UMTS \<mapsto> ''at_opsys=1,2'' @ [CR],
                        UMTS_FORCE_GPRS \<mapsto> ''at_opsys=0,2'' @ [CR],
                        UMTS_PREFER_UMTS \<mapsto> ''at_opsys=2,2'' @ [CR],
                        UMTS_PREFER_GPRS \<mapsto> ''at_opsys=3,2'' @ [CR]]\<rparr>\<rparr>,
     \<lparr>name = ''CDC generic'', vendor = 0, device = 0, driver = Some ''cdc_acm'',
      cfg = \<lparr>ctlidx = 1, datidx = 0, modecmd = only_auto_empty\<rparr>\<rparr>,
     \<lparr>name = ''USB serial generic'', vendor = 0, device = 0, driver = Some ''usbserial'',
      cfg = \<lparr>ctlidx = 0, datidx = 2, modecmd = only_auto_empty\<rparr>\<rparr>]"

text \<open>
  Modelled from the spec: the modem handle, the filter and what device enumeration yields
  (their declarations are in the missing udiald.h). The field names are those that udiald.c
  uses, prefixed.
\<close>

record udiald_modem =
  modem_vendor :: "16 word"
  modem_device :: "16 word"
  modem_driver :: string
  device_id :: string
  ctl_tty :: string
  dat_tty :: string
  profile :: "umts_profile option"

record udiald_filter =
  filter_flags :: "udiald_filter_flag set"
  filter_vendor :: "16 word"
  filter_device :: "16 word"
  filter_device_id :: "string option"
  filter_profile_name :: "string option"

record usb_candidate =
  cand_vendor :: "16 word"
  cand_device :: "16 word"
  cand_driver :: string
  cand_id :: string
  cand_ttys :: "string list"

text \<open>
  \<^verbatim>\<open>struct udiald_state\<close>, as far as udiald.c uses it. \<open>ctl_sent\<close> is not a field of the C
  structure: it records, in order, every command handed to \<^verbatim>\<open>write\<close> on the control line.
\<close>

record udiald_state =
  app :: udiald_app
  flags :: "udiald_flag set"
  networkname :: string
  pin :: "string option"
  sim_state :: int
  is_gsm :: bool
  uci :: uci_store
  custom_profiles :: "umts_profile list"
  filter_spec :: udiald_filter
  modem :: udiald_modem
  ctl_sent :: "string list"

text \<open>
  Modelled from the spec: the accessors of config.c (missing), which address the section named
  after the network name.
\<close>

definition udiald_config_get :: "udiald_state \<Rightarrow> string \<Rightarrow> string option" where
  "udiald_config_get st key = ucix_get_option (uci st) (networkname st) key"

definition udiald_config_get_int :: "udiald_state \<Rightarrow> string \<Rightarrow> int \<Rightarrow> int" where
  "udiald_config_get_int st key def =
     (case udiald_config_get st key of None \<Rightarrow> def | Some v \<Rightarrow> atoi v)"

definition udiald_config_set :: "udiald_state \<Rightarrow> string \<Rightarrow> string \<Rightarrow> udiald_state" where
  "udiald_config_set st key v = st\<lparr>uci := ucix_add_option (uci st) (networkname st) key v\<rparr>"

definition udiald_config_set_int :: "udiald_state \<Rightarrow> string \<Rightarrow> int \<Rightarrow> udiald_state" where
  "udiald_config_set_int st key n = udiald_config_set st key (show_int n)"

definition udiald_config_revert :: "udiald_state \<Rightarrow> string \<Rightarrow> udiald_state" where
  "udiald_config_revert st key = st\<lparr>uci := ucix_revert (uci st) (networkname st) key\<rparr>"

definition udiald_config_append :: "udiald_state \<Rightarrow> string \<Rightarrow> string \<Rightarrow> udiald_state" where
  "udiald_config_append st key v = st\<lparr>uci := ucix_append (uci st) (networkname st) key v\<rparr>"

text \<open>
  How a phase of the session ends: the process exits with a code, the phase returns to
  \<^verbatim>\<open>main\<close>, it never returns, or it leaves what C defines.
\<close>

datatype outcome = Exit udiald_error udiald_state | Return udiald_state | Hang | Undefined

text \<open>
  \<^verbatim>\<open>udiald_exitcode\<close>; \<open>fmt\<close> is the formatted message (\<open>None\<close> for a \<^verbatim>\<open>NULL\<close> format), cut to
  the 256-byte buffer. \<^verbatim>\<open>ucix_save\<close> writes the store out as it stands.
\<close>

definition udiald_exitcode :: "udiald_state \<Rightarrow> udiald_error \<Rightarrow> string option \<Rightarrow> outcome" where
  "udiald_exitcode st code fmt =
    (let code1 = (if code \<noteq> UDIALD_OK \<and> UDIALD_FLAG_SIGNALED \<in> flags st
                  then UDIALD_ESIGNALED else code);
         st1 = (if code1 \<noteq> UDIALD_OK \<and> code1 \<noteq> UDIALD_ESIGNALED then
                  (let s = udiald_config_set_int st ''udiald_error_code'' (exit_status code1)
                   in case fmt of
                        Some msg \<Rightarrow> udiald_config_set s ''udiald_error_msg'' (take 255 msg)
                      | None \<Rightarrow> udiald_config_revert s ''udiald_error_msg'')
                else st);
         st2 = (if app st1 = UDIALD_APP_CONNECT then
                  (if code1 \<noteq> UDIALD_OK then udiald_config_set st1 ''udiald_state'' ''error''
                   else udiald_config_revert st1 ''udiald_state'')
                else st1)
     in Exit code1 st2)"

text \<open>
  What the control line does during one command/response exchange: whether \<^verbatim>\<open>write\<close> takes
  the whole command, what the caller's uninitialised \<^verbatim>\<open>struct udiald_tty_read\<close> holds, and
  what arrives afterwards.
\<close>

record tty_env =
  wr_ok :: bool
  r_uninit :: tty_read
  incoming :: "poll_ev list"

text \<open>\<^verbatim>\<open>udiald_tty_put\<close>: the length of the command, or \<open>-1\<close> after a short write.\<close>

definition udiald_tty_put :: "tty_env \<Rightarrow> string \<Rightarrow> int" where
  "udiald_tty_put env cmd = (if wr_ok env then int (length cmd) else - 1)"

definition sent :: "udiald_state \<Rightarrow> string \<Rightarrow> udiald_state" where
  "sent st cmd = st\<lparr>ctl_sent := ctl_sent st @ [cmd]\<rparr>"

text \<open>\<^verbatim>\<open>strpbrk(s, accept) != NULL\<close>\<close>

definition strpbrk :: "string \<Rightarrow> string \<Rightarrow> bool" where
  "strpbrk s accept = list_ex (\<lambda>ch. ch \<in> set accept) s"

subsection \<open>The phases\<close>

text \<open>
  One exchange on the control line as the phases make it: the command goes out, and unless
  \<open>failed\<close> holds for the value that \<^verbatim>\<open>udiald_tty_put\<close> returned (the \<^verbatim>\<open>||\<close>/\<^verbatim>\<open>&&\<close> of the
  source then skips the read) the reader runs on the caller's structure.
\<close>

datatype exchange = NotRead | Read get_out

definition exchange_of ::
  "tty_dims \<Rightarrow> tty_env \<Rightarrow> bool \<Rightarrow> string option \<Rightarrow> int \<Rightarrow> exchange" where
  "exchange_of d env failed result_prefix timeout =
     (if failed then NotRead
      else Read (udiald_tty_get d (r_uninit env) result_prefix timeout (incoming env)))"

text \<open>The structure that the caller holds after the exchange.\<close>

definition struct_after :: "tty_env \<Rightarrow> exchange \<Rightarrow> tty_read" where
  "struct_after env x = (case x of NotRead \<Rightarrow> r_uninit env | Read g \<Rightarrow> filled g)"

text \<open>\<^verbatim>\<open>udiald_identify\<close>\<close>

definition udiald_identify :: "tty_dims \<Rightarrow> udiald_state \<Rightarrow> tty_env \<Rightarrow> outcome" where
  "udiald_identify d st env =
    (let cmd = ''AT+CGMI;+CGMM'' @ [CR];
         st1 = sent st cmd
     in case exchange_of d env (udiald_tty_put env cmd < 1) None 2500 of
          NotRead \<Rightarrow> udiald_exitcode st1 UDIALD_EMODEM (Some ''Unable to identify modem'')
        | Read g \<Rightarrow>
            (case outcome g of
               Overrun \<Rightarrow> Undefined
             | Blocked \<Rightarrow> Hang
             | Spin \<Rightarrow> Hang
             | _ \<Rightarrow>
                 if outcome g \<noteq> Tag UDIALD_AT_OK \<or> lines (filled g) < 3 then
                   udiald_exitcode st1 UDIALD_EMODEM (Some ''Unable to identify modem'')
                 else
                   Return (udiald_config_set st1 ''modem_name''
                     (take 511 (cstr d (raw_buf (filled g)) (raw_lines (filled g) 0) @ '' '' @
                                cstr d (raw_buf (filled g)) (raw_lines (filled g) 1))))))"

text \<open>The characters that \<^verbatim>\<open>udiald_enter_pin\<close> and \<^verbatim>\<open>udiald_enter_puk\<close> refuse.\<close>

definition pin_forbidden :: string where
  "pin_forbidden = [DQUOTE, CR, LF, CHR '';'']"

text \<open>\<^verbatim>\<open>udiald_enter_puk\<close>\<close>

definition udiald_enter_puk ::
  "tty_dims \<Rightarrow> udiald_state \<Rightarrow> string \<Rightarrow> string \<Rightarrow> tty_env \<Rightarrow> outcome" where
  "udiald_enter_puk d st puk new_pin env =
    (if sim_state st \<noteq> 2 then
       udiald_exitcode st UDIALD_ESIM (Some ''Cannot use PUK - SIM not locked'')
     else if strpbrk new_pin pin_forbidden \<or> strpbrk puk pin_forbidden then
       udiald_exitcode st UDIALD_EINVAL (Some ''Invalid PIN or PUK'')
     else
       let b = take 511 (''AT+CPIN='' @ [DQUOTE] @ puk @ [DQUOTE] @ '','' @ [DQUOTE] @ new_pin @
                         [DQUOTE, CR]);
           st1 = sent st b
       in case exchange_of d env (\<not> 0 \<le> udiald_tty_put env b) None 2500 of
            NotRead \<Rightarrow> udiald_exitcode st1 UDIALD_EUNLOCK (Some ''Failed to reset PIN'')
          | Read g \<Rightarrow>
              (case outcome g of
                 Overrun \<Rightarrow> Undefined
               | Blocked \<Rightarrow> Hang
               | Spin \<Rightarrow> Hang
               | _ \<Rightarrow>
                   if outcome g = Tag UDIALD_AT_OK then
                     udiald_exitcode (udiald_config_set st1 ''sim_state'' ''ready'') UDIALD_OK None
                   else udiald_exitcode st1 UDIALD_EUNLOCK (Some ''Failed to reset PIN'')))"

text \<open>
  \<^verbatim>\<open>udiald_enter_pin\<close>. In probe mode a failure is logged and the phase returns. The log and
  error messages of the rejected exchange take the flattened response as an argument, so the
  flattener runs before either. The sleep after an accepted PIN has no counterpart here.
\<close>

definition udiald_enter_pin :: "tty_dims \<Rightarrow> udiald_state \<Rightarrow> tty_env \<Rightarrow> outcome" where
  "udiald_enter_pin d st env =
    (case (case pin st of Some p \<Rightarrow> Some p | None \<Rightarrow> udiald_config_get st ''udiald_pin'') of
       None \<Rightarrow>
         if app st \<noteq> UDIALD_APP_PROBE then
           udiald_exitcode st UDIALD_EUNLOCK (Some ''No PIN configured'')
         else Return st
     | Some p \<Rightarrow>
         if p = [] then
           if app st \<noteq> UDIALD_APP_PROBE then
             udiald_exitcode st UDIALD_EUNLOCK (Some ''No PIN configured'')
           else Return st
         else if strpbrk p pin_forbidden then
           if app st \<noteq> UDIALD_APP_PROBE then
             udiald_exitcode st UDIALD_EINVAL (Some (''Invalid PIN configured ('' @ p @ '')''))
           else Return st
         else if ucix_get_option (uci st) UCI_SECTION_GLOBAL ''failed_pin'' = Some p then
           if app st \<noteq> UDIALD_APP_PROBE then
             udiald_exitcode st UDIALD_ESIM
               (Some (''Not retrying previously failed pin ('' @ p @ '')''))
           else Return st
         else
           let st1 = udiald_config_revert st ''failed_pin'';
               b = take 511 (''AT+CPIN='' @ [DQUOTE] @ p @ [DQUOTE, CR]);
               st2 = sent st1 b;
               x = exchange_of d env (udiald_tty_put env b < 0) None 2500;
               rejected =
                 (let st3 = st2\<lparr>uci := ucix_add_option (uci st2) UCI_SECTION_GLOBAL
                                          ''failed_pin'' p\<rparr>
                  in case udiald_tty_flatten_result d (struct_after env x) of
                       None \<Rightarrow> Hang
                     | Some rf \<Rightarrow>
                         if app st \<noteq> UDIALD_APP_PROBE then
                           udiald_exitcode st3 UDIALD_EUNLOCK
                             (Some (''PIN '' @ p @ '' rejected ('' @ flat_buf rf @ '')''))
                         else Return st3)
           in case x of
                NotRead \<Rightarrow> rejected
              | Read g \<Rightarrow>
                  (case outcome g of
                     Overrun \<Rightarrow> Undefined
                   | Blocked \<Rightarrow> Hang
                   | Spin \<Rightarrow> Hang
                   | _ \<Rightarrow>
                       if outcome g \<noteq> Tag UDIALD_AT_OK then rejected
                       else Return (udiald_config_set st2 ''sim_state'' ''ready'')))"

text \<open>
  \<^verbatim>\<open>udiald_set_mode\<close>. The error message of a failed exchange has two conversions and three
  arguments, the flattened response being the third: the flattener runs, its result is not
  printed.
\<close>

definition udiald_set_mode :: "tty_dims \<Rightarrow> udiald_state \<Rightarrow> tty_env \<Rightarrow> outcome" where
  "udiald_set_mode d st env =
    (let m = udiald_config_get st ''udiald_mode'';
         mode = udiald_modem_modeval
                  (case m of Some v \<Rightarrow> if v \<noteq> [] then v else ''auto'' | None \<Rightarrow> ''auto'')
     in case mode of
          None \<Rightarrow> udiald_exitcode st UDIALD_EINVAL (Some ''Unsupported mode ()'')
        | Some md \<Rightarrow>
            (case profile (modem st) of
               None \<Rightarrow> Undefined
             | Some prof \<Rightarrow>
                 (case modecmd (cfg prof) md of
                    None \<Rightarrow>
                      udiald_exitcode st UDIALD_EINVAL
                        (Some (''Unsupported mode ('' @ udiald_modem_modestr md @ '')''))
                  | Some cmd \<Rightarrow>
                      if cmd = [] then Return st
                      else
                        let st1 = sent st cmd;
                            x = exchange_of d env (udiald_tty_put env cmd < 0) None 5000;
                            failed =
                              (case udiald_tty_flatten_result d (struct_after env x) of
                                 None \<Rightarrow> Hang
                               | Some rf \<Rightarrow>
                                   udiald_exitcode st1 UDIALD_EMODEM
                                     (Some (''Failed to set mode '' @ device_id (modem st) @
                                            '' ('' @ udiald_modem_modestr md @ '')'')))
                        in case x of
                             NotRead \<Rightarrow> failed
                           | Read g \<Rightarrow>
                               (case outcome g of
                                  Overrun \<Rightarrow> Undefined
                                | Blocked \<Rightarrow> Hang
                                | Spin \<Rightarrow> Hang
                                | _ \<Rightarrow>
                                    if outcome g \<noteq> Tag UDIALD_AT_OK then failed
                                    else Return st1))))"

text \<open>
  The status that \<^verbatim>\<open>waitpid\<close> stores for a child that is gone: \<^verbatim>\<open>WIFEXITED\<close> with its
  \<^verbatim>\<open>WEXITSTATUS\<close>, or \<^verbatim>\<open>WIFSIGNALED\<close> with the signal.
\<close>

datatype wait_status = WExited nat | WSignaled nat

text \<open>
  \<^verbatim>\<open>udiald_connect_finish\<close>. \<open>reaped\<close> is the status that the non-blocking \<^verbatim>\<open>waitpid\<close> stored,
  \<open>None\<close> when it did not return the child; \<open>late\<close> is the status that the blocking
  \<^verbatim>\<open>waitpid\<close> after the \<^verbatim>\<open>kill\<close> stores in that case; \<open>signaled\<close> is the global of that name.
\<close>

definition udiald_connect_finish ::
  "udiald_state \<Rightarrow> wait_status option \<Rightarrow> wait_status \<Rightarrow> int \<Rightarrow> outcome" where
  "udiald_connect_finish st reaped late signaled =
    (let st1 = foldl udiald_config_revert st [''pid'', ''connected'', ''provider'', ''rssi''];
         st2 = sent st1 (''ATH;&F'' @ [CR])
     in case reaped of
          None \<Rightarrow>
            udiald_exitcode st2 UDIALD_ESIGNALED
              (Some (''Terminated by signal '' @ show_int signaled))
        | Some (WSignaled sig) \<Rightarrow> udiald_exitcode st2 UDIALD_ESIGNALED (Some ''pppd terminated'')
        | Some (WExited n) \<Rightarrow>
            if n = 5 then udiald_exitcode st2 UDIALD_ESIGNALED (Some ''pppd terminated'')
            else if n = 7 \<or> n = 16 then
              udiald_exitcode st2 UDIALD_EMODEM (Some ''pppd: modem error'')
            else if n = 8 then udiald_exitcode st2 UDIALD_EDIAL (Some ''pppd: dialing error'')
            else if n = 0 \<or> n = 15 then
              udiald_exitcode st2 UDIALD_ENETWORK (Some ''ppd: terminated by network'')
            else if n = 19 then
              udiald_exitcode st2 UDIALD_EAUTH (Some ''pppd: invalid credentials'')
            else
              udiald_exitcode st2 UDIALD_EPPP
                (Some (''pppd: other error ('' @ show_nat n @ '')'')))"

text \<open>
  The credentials that \<^verbatim>\<open>udiald_tty_pppd\<close> writes into the configuration file of the link
  daemon: the value between the quotes, and the two lines.
\<close>

definition pppd_forbidden :: string where
  "pppd_forbidden = [DQUOTE, CR, LF]"

definition pppd_credential :: "string option \<Rightarrow> string" where
  "pppd_credential s =
     (case s of None \<Rightarrow> [] | Some v \<Rightarrow> if v \<noteq> [] \<and> \<not> strpbrk v pppd_forbidden then v else [])"

definition pppd_auth_lines :: "udiald_state \<Rightarrow> string" where
  "pppd_auth_lines st =
     ''user '' @ [DQUOTE] @ pppd_credential (udiald_config_get st ''udiald_user'') @ [DQUOTE, LF] @
     ''password '' @ [DQUOTE] @ pppd_credential (udiald_config_get st ''udiald_pass'') @
     [DQUOTE, LF]"

subsection \<open>Discovery and the start of main\<close>

text \<open>
  Modelled from the spec: profile matching (modem.c is missing). A selector of a profile that
  is zero or \<^verbatim>\<open>NULL\<close> is unset; a profile matches when every set selector equals the field of
  the candidate.
\<close>

definition profile_matches :: "umts_profile \<Rightarrow> usb_candidate \<Rightarrow> bool" where
  "profile_matches p cand \<longleftrightarrow>
     (vendor p = 0 \<or> vendor p = cand_vendor cand) \<and>
     (device p = 0 \<or> device p = cand_device cand) \<and>
     (case driver p of None \<Rightarrow> True | Some drv \<Rightarrow> drv = cand_driver cand)"

text \<open>
  Modelled from the spec: the profile chosen for a candidate (modem.c is missing). For any
  candidate it is the first entry of the list, user profiles before the built-in ones, all
  of whose set selectors equal the candidate (sections 4.3 and 7).
\<close>

definition bind_profile :: "umts_profile list \<Rightarrow> usb_candidate \<Rightarrow> umts_profile option" where
  "bind_profile ps cand = find (\<lambda>p. profile_matches p cand) ps"

text \<open>
  Modelled from the spec: a candidate survives when every set field of the filter matches it
  (vendor, device, device identifier, and the name of its profile) and, with the
  require-profile flag, it has a matching profile (sections 3 and 4.4).
\<close>

definition filter_accepts :: "umts_profile list \<Rightarrow> udiald_filter \<Rightarrow> usb_candidate \<Rightarrow> bool" where
  "filter_accepts ps flt cand \<longleftrightarrow>
     (UDIALD_FILTER_VENDOR \<notin> filter_flags flt \<or> filter_vendor flt = cand_vendor cand) \<and>
     (UDIALD_FILTER_DEVICE \<notin> filter_flags flt \<or> filter_device flt = cand_device cand) \<and>
     (case filter_device_id flt of None \<Rightarrow> True | Some i \<Rightarrow> i = cand_id cand) \<and>
     (case filter_profile_name flt of
        None \<Rightarrow> True
      | Some n \<Rightarrow> map_option name (bind_profile ps cand) = Some n) \<and>
     (UDIALD_FILTER_PROFILE \<notin> filter_flags flt \<or> bind_profile ps cand \<noteq> None)"

text \<open>
  Modelled from the spec: \<^verbatim>\<open>udiald_modem_find_devices\<close> (modem.c is missing) for the call that
  picks one modem. The first survivor in enumeration order is chosen; the indices of its
  profile select the two endpoints, and an index out of range is an error. The spec names no
  code for that error; the model reports both failures as \<open>UDIALD_ENODEV\<close>.
\<close>

definition udiald_modem_find_devices ::
  "umts_profile list \<Rightarrow> usb_candidate list \<Rightarrow> udiald_filter \<Rightarrow> udiald_error + udiald_modem"
where
  "udiald_modem_find_devices ps cands flt =
     (case find (filter_accepts ps flt) cands of
        None \<Rightarrow> Inl UDIALD_ENODEV
      | Some cand \<Rightarrow>
          (case bind_profile ps cand of
             None \<Rightarrow>
               Inr \<lparr>modem_vendor = cand_vendor cand, modem_device = cand_device cand,
                    modem_driver = cand_driver cand, device_id = cand_id cand,
                    ctl_tty = [], dat_tty = [], profile = None\<rparr>
           | Some p \<Rightarrow>
               if ctlidx (cfg p) < length (cand_ttys cand) \<and>
                  datidx (cfg p) < length (cand_ttys cand)
               then
                 Inr \<lparr>modem_vendor = cand_vendor cand, modem_device = cand_device cand,
                      modem_driver = cand_driver cand, device_id = cand_id cand,
                      ctl_tty = cand_ttys cand ! ctlidx (cfg p),
                      dat_tty = cand_ttys cand ! datidx (cfg p), profile = Some p\<rparr>
               else Inl UDIALD_ENODEV))"

text \<open>\<^verbatim>\<open>%04x\<close> of a 16-bit value.\<close>

definition hex_digit :: "nat \<Rightarrow> char" where
  "hex_digit n = (if n < 10 then char_of (48 + n) else char_of (87 + n))"

definition hex4 :: "16 word \<Rightarrow> string" where
  "hex4 w = map (\<lambda>k. hex_digit (nat (uint w div 16 ^ k mod 16))) [3, 2, 1, 0]"

text \<open>\<^verbatim>\<open>udiald_select_modem\<close>; \<open>cands\<close> is what the enumeration of the USB devices yields.\<close>

definition udiald_select_modem :: "udiald_state \<Rightarrow> usb_candidate list \<Rightarrow> outcome" where
  "udiald_select_modem st cands =
    (let st1 = st\<lparr>filter_spec := (filter_spec st)
                  \<lparr>filter_flags := filter_flags (filter_spec st) \<union> {UDIALD_FILTER_PROFILE}\<rparr>\<rparr>
     in case udiald_modem_find_devices (custom_profiles st1 @ profiles) cands (filter_spec st1) of
          Inl e \<Rightarrow> udiald_exitcode st1 e (Some ''No usable modem found'')
        | Inr m \<Rightarrow>
            let st2 = st1\<lparr>modem := m\<rparr>;
                st3 = udiald_config_set st2 ''modem_id''
                        (hex4 (modem_vendor m) @ '':'' @ hex4 (modem_device m));
                st4 = udiald_config_set st3 ''modem_driver'' (modem_driver m)
            in case profile m of
                 None \<Rightarrow> Undefined
               | Some prof \<Rightarrow>
                   Return (foldl (\<lambda>s i. if modecmd (cfg prof) i \<noteq> None
                                        then udiald_config_append s ''modem_mode''
                                               (udiald_modem_modestr i)
                                        else s) st4 all_modes))"

text \<open>
  \<^verbatim>\<open>main\<close> from the parsed command line up to the return of \<^verbatim>\<open>udiald_select_modem\<close>: the
  application handed over to (dial and the two listings), the plain \<^verbatim>\<open>exit\<close> of the \<^verbatim>\<open>-t\<close>
  test, or the outcome of the selection.
\<close>

datatype startup = Dispatch udiald_app | Abort udiald_error | Selected outcome

definition udiald_main_select :: "udiald_state \<Rightarrow> usb_candidate list \<Rightarrow> startup" where
  "udiald_main_select st cands =
    (if app st = UDIALD_APP_DIAL then Dispatch UDIALD_APP_DIAL
     else if app st = UDIALD_APP_LIST_PROFILES then Dispatch UDIALD_APP_LIST_PROFILES
     else if app st = UDIALD_APP_LIST_DEVICES then Dispatch UDIALD_APP_LIST_DEVICES
     else if app st = UDIALD_APP_CONNECT \<and> UDIALD_FLAG_TESTSTATE \<in> flags st \<and>
             udiald_config_get_int st ''udiald_error'' (exit_status UDIALD_OK) =
               exit_status UDIALD_EUNLOCK
     then Abort UDIALD_EUNLOCK
     else
       let st1 = foldl udiald_config_revert st
                   [''modem_name'', ''modem_driver'', ''modem_id'', ''modem_mode'', ''modem_gsm'',
                    ''sim_state'', ''udiald_error_code'', ''udiald_error_msg''];
           st2 = (if app st1 = UDIALD_APP_CONNECT
                  then udiald_config_set st1 ''udiald_state'' ''init'' else st1)
       in Selected (udiald_select_modem st2 cands))"

section \<open>Predicates and inputs of the statements\<close>

text \<open>
  What holds of the structure at every return of the reader: no committed line starts with
  the caret, and the result line is one of the committed lines.
\<close>

definition committed_ok :: "tty_read \<Rightarrow> bool" where
  "committed_ok r \<longleftrightarrow>
     (\<forall>i < lines r. raw_buf r (raw_lines r i) \<noteq> CHR ''^'') \<and>
     (\<forall>p. result_line r = Some p \<longrightarrow> (\<exists>i < lines r. raw_lines r i = p))"

text \<open>A returned tag is the one that the last committed line begins with.\<close>

definition tag_ok :: "tty_dims \<Rightarrow> get_result \<Rightarrow> tty_read \<Rightarrow> bool" where
  "tag_ok d res r \<longleftrightarrow>
     (\<forall>t. res = Tag t \<longrightarrow>
        0 < lines r \<and>
        match_atres ttyresstr (cstr d (raw_buf r) (raw_lines r (lines r - 1))) = Some t)"

text \<open>
  The invariant of the two loops: the committed lines lie below the cursor, and so does the
  start of the line being read, above all committed ones.
\<close>

definition tty_inv :: "tty_state \<Rightarrow> bool" where
  "tty_inv s \<longleftrightarrow>
     committed_ok (rd s) \<and>
     (\<forall>i < lines (rd s). raw_lines (rd s) i < c s) \<and>
     (\<not> in_newline s \<longrightarrow>
        raw_lines (rd s) (lines (rd s)) < c s \<and>
        (\<forall>i < lines (rd s). raw_lines (rd s) i < raw_lines (rd s) (lines (rd s))))"

definition is_eol :: "char \<Rightarrow> bool" where
  "is_eol ch \<longleftrightarrow> ch = CR \<or> ch = LF"

definition put_byte :: "tty_read \<Rightarrow> nat \<Rightarrow> char \<Rightarrow> tty_read" where
  "put_byte r i ch = r\<lparr>raw_buf := (raw_buf r)(i := ch)\<rparr>"

text \<open>The structure after a line has been committed.\<close>

definition commit :: "tty_dims \<Rightarrow> string option \<Rightarrow> tty_state \<Rightarrow> tty_read" where
  "commit d p s =
    (let r1 = put_byte (rd s) (c s) NUL; start = raw_lines r1 (lines r1);
         r2 = r1\<lparr>lines := lines r1 + 1\<rparr>
     in case p of None \<Rightarrow> r2
        | Some q \<Rightarrow> if result_line r2 = None \<and> strncmp_eq (cstr d (raw_buf r2) start) q
                    then r2\<lparr>result_line := Some start\<rparr> else r2)"

text \<open>Reading off an outcome.\<close>

fun exit_code_of :: "outcome \<Rightarrow> udiald_error option" where
  "exit_code_of (Exit e s) = Some e"
| "exit_code_of out = None"


fun returned :: "outcome \<Rightarrow> udiald_state option" where
  "returned (Return s) = Some s"
| "returned out = None"

text \<open>The reader has returned to its caller, with a tag or with the failure indicator.\<close>

fun reader_returns :: "get_result \<Rightarrow> bool" where
  "reader_returns (Tag t) = True"
| "reader_returns (Fail e) = True"
| "reader_returns res = False"

text \<open>
  A reply that the reader can take in: the line does not hang up, and all the bytes that
  arrive fit \<open>raw_buf\<close>.
\<close>

fun hangs_up :: "poll_ev \<Rightarrow> bool" where
  "hangs_up (PollReady delay bs ReadEof) = True"
| "hangs_up ev = False"

fun bytes_of :: "poll_ev \<Rightarrow> nat" where
  "bytes_of (PollReady delay bs e) = length bs"
| "bytes_of ev = 0"

definition reply_fits :: "tty_dims \<Rightarrow> poll_ev list \<Rightarrow> bool" where
  "reply_fits d evs \<longleftrightarrow>
     \<not> list_ex hangs_up evs \<and> sum_list (map bytes_of evs) \<le> raw_buf_len d"

text \<open>Concrete inputs: buffers of 512 bytes, 16 line pointers and a 32-bit \<^verbatim>\<open>size_t\<close>.\<close>

definition dims512 :: tty_dims where
  "dims512 = \<lparr>raw_buf_len = 512, raw_lines_len = 16, flat_buf_len = 512, size_bits = 32\<rparr>"

text \<open>A structure as a caller's stack may hold it before the first call.\<close>

definition stale_read :: tty_read where
  "stale_read = \<lparr>raw_buf = (\<lambda>i. CHR ''#''), raw_lines = (\<lambda>i. 7), lines = 5,
                  result_line = Some 3, flat_buf = ''?''\<rparr>"

definition CRLF :: string where
  "CRLF = [CR, LF]"

text \<open>The stream of the scenario with an unsolicited line, delivered in one piece.\<close>

definition rssi_stream :: "poll_ev list" where
  "rssi_stream =
     [PollReady 10 (''^RSSI:12'' @ CRLF @ ''+CPIN: READY'' @ CRLF @ ''OK'' @ CRLF)
        (ReadErr EAGAIN)]"

text \<open>
  The string of the claim on the flattener, in the words of the spec: every line in double
  quotes, a comma and a space between two items, nothing after the last.
\<close>

fun quoted_csv :: "string list \<Rightarrow> string" where
  "quoted_csv [] = []"
| "quoted_csv [l] = DQUOTE # l @ [DQUOTE]"
| "quoted_csv (l # ls) = DQUOTE # l @ [DQUOTE] @ '', '' @ quoted_csv ls"

text \<open>Smaller buffers, 64 bytes each, for the inputs that fill them.\<close>

definition dims64 :: tty_dims where
  "dims64 = \<lparr>raw_buf_len = 64, raw_lines_len = 8, flat_buf_len = 64, size_bits = 32\<rparr>"

text \<open>A reply of one line of 57 bytes and the terminator \<^verbatim>\<open>ERROR\<close>: 64 bytes with the line ends.\<close>

definition long_error_reply :: "poll_ev list" where
  "long_error_reply =
     [PollReady 10 (replicate 57 (CHR ''A'') @ [CR] @ ''ERROR'' @ [CR]) (ReadErr EAGAIN)]"

text \<open>A line of 63 bytes that no terminator follows.\<close>

definition long_line_reply :: "poll_ev list" where
  "long_line_reply = [PollReady 10 (replicate 63 (CHR ''B'') @ [CR]) (ReadErr EAGAIN)]"

text \<open>More readings of an outcome and of the start of main.\<close>

fun sent_by :: "outcome \<Rightarrow> string list option" where
  "sent_by (Exit e s) = Some (ctl_sent s)"
| "sent_by (Return s) = Some (ctl_sent s)"
| "sent_by out = None"

fun store_of :: "outcome \<Rightarrow> uci_store" where
  "store_of (Exit e s) = uci s"
| "store_of (Return s) = uci s"
| "store_of out = Map.empty"

fun aborted :: "startup \<Rightarrow> udiald_error option" where
  "aborted (Abort e) = Some e"
| "aborted x = None"

fun selection :: "startup \<Rightarrow> outcome option" where
  "selection (Selected out) = Some out"
| "selection x = None"

text \<open>The PIN that \<^verbatim>\<open>udiald_enter_pin\<close> works with: the override, else the configured one.\<close>

definition effective_pin :: "udiald_state \<Rightarrow> string option" where
  "effective_pin st =
     (case pin st of Some p \<Rightarrow> Some p | None \<Rightarrow> udiald_config_get st ''udiald_pin'')"

text \<open>The mode name that \<^verbatim>\<open>udiald_set_mode\<close> looks up.\<close>

definition mode_name :: "udiald_state \<Rightarrow> string" where
  "mode_name st =
     (case udiald_config_get st ''udiald_mode'' of
        Some v \<Rightarrow> if v \<noteq> [] then v else ''auto'' | None \<Rightarrow> ''auto'')"


text \<open>A session as \<^verbatim>\<open>main\<close> has it after the command line, on the network \<^verbatim>\<open>wan\<close>.\<close>

definition no_modem :: udiald_modem where
  "no_modem = \<lparr>modem_vendor = 0, modem_device = 0, modem_driver = [], device_id = [],
                ctl_tty = [], dat_tty = [], profile = None\<rparr>"

definition no_filter :: udiald_filter where
  "no_filter = \<lparr>filter_flags = {}, filter_vendor = 0, filter_device = 0,
                 filter_device_id = None, filter_profile_name = None\<rparr>"

definition fresh_session :: "udiald_app \<Rightarrow> uci_store \<Rightarrow> udiald_state" where
  "fresh_session a u =
     \<lparr>app = a, flags = {}, networkname = ''wan'', pin = None, sim_state = 0, is_gsm = False,
      uci = u, custom_profiles = [], filter_spec = no_filter, modem = no_modem, ctl_sent = []\<rparr>"

text \<open>The store of the scenario that refuses a retry, and a control line that stays silent.\<close>

definition failed_pin_store :: uci_store where
  "failed_pin_store =
     [(UCI_SECTION_GLOBAL, ''failed_pin'') \<mapsto> UciString ''1234'',
      (''wan'', ''udiald_pin'') \<mapsto> UciString ''1234'']"

definition quiet_line :: tty_env where
  "quiet_line = \<lparr>wr_ok = True, r_uninit = stale_read, incoming = []\<rparr>"

text \<open>
  The store that a connect run leaves behind when it ends with the unlock error, and the next
  run, started with \<^verbatim>\<open>-t\<close> on that store.
\<close>

definition unlock_failure_store :: uci_store where
  "unlock_failure_store =
     store_of (udiald_exitcode (fresh_session UDIALD_APP_CONNECT Map.empty) UDIALD_EUNLOCK
       (Some ''PIN 1234 rejected ()''))"

definition rerun_with_t :: udiald_state where
  "rerun_with_t =
     (fresh_session UDIALD_APP_CONNECT unlock_failure_store)\<lparr>flags := {UDIALD_FLAG_TESTSTATE}\<rparr>"

text \<open>The identification reply of the first scenario.\<close>

definition e220_reply :: tty_env where
  "e220_reply =
     \<lparr>wr_ok = True, r_uninit = stale_read,
      incoming = [PollReady 10 (''Huawei'' @ CRLF @ ''E220'' @ CRLF @ ''OK'' @ CRLF)
                    (ReadErr EAGAIN)]\<rparr>"

text \<open>
  A reply with one line before the terminator, and a line that hangs up after two bytes.
\<close>

definition one_line_reply :: tty_env where
  "one_line_reply =
     \<lparr>wr_ok = True, r_uninit = stale_read,
      incoming = [PollReady 10 (''Huawei'' @ CRLF @ ''OK'' @ CRLF) (ReadErr EAGAIN)]\<rparr>"

definition hang_up_reply :: tty_env where
  "hang_up_reply =
     \<lparr>wr_ok = True, r_uninit = stale_read, incoming = [PollReady 0 ''AT'' ReadEof]\<rparr>"

text \<open>A reply that arrives in two pieces, each two seconds after the poll begins.\<close>

definition trickle_reply :: "poll_ev list" where
  "trickle_reply =
     [PollReady 2000 ''O'' (ReadErr EAGAIN), PollReady 2000 (''K'' @ [CR]) (ReadErr EAGAIN)]"

text \<open>The value of a key of the network section, empty when the key is not set.\<close>

definition config_value :: "udiald_state \<Rightarrow> string \<Rightarrow> string" where
  "config_value st key = (case udiald_config_get st key of Some v \<Rightarrow> v | None \<Rightarrow> [])"

text \<open>
  Credentials with a semicolon, and a user name with a double quote next to a password with
  a carriage return.
\<close>

definition semicolon_store :: uci_store where
  "semicolon_store =
     [(''wan'', ''udiald_user'') \<mapsto> UciString ''a;b'',
      (''wan'', ''udiald_pass'') \<mapsto> UciString ''p;q'']"

definition quote_store :: uci_store where
  "quote_store =
     [(''wan'', ''udiald_user'') \<mapsto> UciString (''a'' @ [DQUOTE] @ ''b''),
      (''wan'', ''udiald_pass'') \<mapsto> UciString (''p'' @ [CR] @ ''q'')]"

text \<open>A session bound to the profile of the Huawei K3520, and the long reply on its line.\<close>

definition huawei_k3520 :: umts_profile where
  "huawei_k3520 = profiles ! 2"

definition huawei_session :: udiald_state where
  "huawei_session =
     (fresh_session UDIALD_APP_CONNECT Map.empty)
       \<lparr>is_gsm := True, modem := no_modem\<lparr>modem_vendor := 0x12d1, modem_device := 0x1001,
            modem_driver := ''option'', device_id := ''1-1'', ctl_tty := ''ttyUSB2'',
            dat_tty := ''ttyUSB0'', profile := Some huawei_k3520\<rparr>\<rparr>"

definition long_error_env :: tty_env where
  "long_error_env = \<lparr>wr_ok = True, r_uninit = stale_read, incoming = long_error_reply\<rparr>"

text \<open>Two devices on the bus: one that no profile matches, and a Huawei K3520.\<close>

definition two_candidates :: "usb_candidate list" where
  "two_candidates =
     [\<lparr>cand_vendor = 0x1234, cand_device = 0x0001, cand_driver = ''ftdi_sio'',
       cand_id = ''1-1'', cand_ttys = [''ttyUSB0'']\<rparr>,
      \<lparr>cand_vendor = 0x12d1, cand_device = 0x1001, cand_driver = ''option'',
       cand_id = ''1-2'', cand_ttys = [''ttyUSB1'', ''ttyUSB2'', ''ttyUSB3'']\<rparr>]"

fun modem_name_of :: "outcome \<Rightarrow> string option" where
  "modem_name_of (Return s) = udiald_config_get s ''modem_name''"
| "modem_name_of out = None"

fun selected_modem :: "startup \<Rightarrow> udiald_modem option" where
  "selected_modem (Selected (Return s)) = Some (modem s)"
| "selected_modem x = None"

section \<open>Properties of the reader\<close>

declare tty_poll_loop.simps [simp del]

lemmas tty_poll_loop_Nil = tty_poll_loop.simps[of _ _ _ _ _ _ "[]"]
lemmas tty_poll_loop_Cons = tty_poll_loop.simps[of _ _ _ _ _ _ "ev # evs" for ev evs]

lemma tty_inv_committed: "tty_inv s \<Longrightarrow> committed_ok (rd s)"
  by (simp add: tty_inv_def)

lemma advance_simps [simp]:
  "rd (advance d s) = rd s" "c (advance d s) = c s + 1" "in_newline (advance d s) = in_newline s"
  by (simp_all add: advance_def)

lemma eol_not_caret [simp]: "NUL \<noteq> CHR ''^''" "CR \<noteq> CHR ''^''" "LF \<noteq> CHR ''^''"
  by (simp_all add: NUL_def CR_def LF_def)

lemma put_byte_simps [simp]:
  "raw_lines (put_byte r i ch) = raw_lines r"
  "lines (put_byte r i ch) = lines r"
  "result_line (put_byte r i ch) = result_line r"
  "raw_buf (put_byte r i ch) = (raw_buf r)(i := ch)"
  by (simp_all add: put_byte_def)

text \<open>The five ways through the body of the inner loop.\<close>

lemma tty_byte_eol_again:
  "is_eol ch \<Longrightarrow> in_newline s \<Longrightarrow> tty_byte d p s ch = Cont (s\<lparr>rd := put_byte (rd s) (c s) ch\<rparr>)"
  by (simp add: tty_byte_def is_eol_def put_byte_def)

lemma tty_byte_caret:
  "is_eol ch \<Longrightarrow> \<not> in_newline s \<Longrightarrow>
   raw_buf (put_byte (rd s) (c s) NUL) (raw_lines (rd s) (lines (rd s))) = CHR ''^'' \<Longrightarrow>
   tty_byte d p s ch =
     Cont (s\<lparr>rd := put_byte (rd s) (c s) NUL, c := raw_lines (rd s) (lines (rd s)),
             in_newline := True\<rparr>)"
  by (simp add: tty_byte_def is_eol_def put_byte_def Let_def del: fun_upd_apply)

lemma commit_simps [simp]:
  "raw_buf (commit d p s) = (raw_buf (rd s))(c s := NUL)"
  "raw_lines (commit d p s) = raw_lines (rd s)"
  "lines (commit d p s) = Suc (lines (rd s))"
  by (simp_all add: commit_def Let_def put_byte_def split: option.splits)

lemma commit_result_line:
  "result_line (commit d p s) = Some q \<Longrightarrow>
   result_line (rd s) = Some q \<or> q = raw_lines (rd s) (lines (rd s))"
  by (auto simp add: commit_def Let_def split: option.splits if_splits)

lemma tty_byte_commit:
  "is_eol ch \<Longrightarrow> \<not> in_newline s \<Longrightarrow>
   raw_buf (put_byte (rd s) (c s) NUL) (raw_lines (rd s) (lines (rd s))) \<noteq> CHR ''^'' \<Longrightarrow>
   tty_byte d p s ch =
     (case match_atres ttyresstr
             (cstr d (raw_buf (commit d p s)) (raw_lines (rd s) (lines (rd s)))) of
        Some t \<Rightarrow> Stop (Tag t) (commit d p s)
      | None \<Rightarrow> Cont (advance d (s\<lparr>rd := commit d p s, in_newline := True\<rparr>)))"
  by (simp add: tty_byte_def is_eol_def put_byte_def Let_def commit_def del: fun_upd_apply
      split: option.splits)

lemma tty_byte_start:
  "\<not> is_eol ch \<Longrightarrow> in_newline s \<Longrightarrow>
   tty_byte d p s ch =
     (if lines (rd s) = raw_lines_len d - 1 then Stop (Fail ERANGE) (put_byte (rd s) (c s) ch)
      else Cont (advance d (s\<lparr>rd := (put_byte (rd s) (c s) ch)
                      \<lparr>raw_lines := (raw_lines (rd s))(lines (rd s) := c s)\<rparr>,
                    in_newline := False\<rparr>)))"
  by (simp add: tty_byte_def is_eol_def put_byte_def Let_def)

lemma tty_byte_regular:
  "\<not> is_eol ch \<Longrightarrow> \<not> in_newline s \<Longrightarrow>
   tty_byte d p s ch = Cont (advance d (s\<lparr>rd := put_byte (rd s) (c s) ch\<rparr>))"
  by (simp add: tty_byte_def is_eol_def put_byte_def Let_def)

lemma tty_byte_cases:
  obtains (again) "is_eol ch" "in_newline s"
  | (caret) "is_eol ch" "\<not> in_newline s"
      "raw_buf (put_byte (rd s) (c s) NUL) (raw_lines (rd s) (lines (rd s))) = CHR ''^''"
  | (commit) "is_eol ch" "\<not> in_newline s"
      "raw_buf (put_byte (rd s) (c s) NUL) (raw_lines (rd s) (lines (rd s))) \<noteq> CHR ''^''"
  | (start) "\<not> is_eol ch" "in_newline s"
  | (regular) "\<not> is_eol ch" "\<not> in_newline s"
  by blast

lemma committed_ok_frame:
  assumes "committed_ok r" "lines r' = lines r" "result_line r' = result_line r"
    and "\<And>i. i < lines r \<Longrightarrow> raw_lines r' i = raw_lines r i"
    and "\<And>i. i < lines r \<Longrightarrow> raw_buf r' (raw_lines r i) = raw_buf r (raw_lines r i)"
  shows "committed_ok r'"
  using assms unfolding committed_ok_def by metis

lemma tty_inv_D:
  assumes "tty_inv s"
  shows "committed_ok (rd s)"
    and "\<And>i. i < lines (rd s) \<Longrightarrow> raw_lines (rd s) i < c s"
    and "\<not> in_newline s \<Longrightarrow> raw_lines (rd s) (lines (rd s)) < c s"
    and "\<And>i. \<not> in_newline s \<Longrightarrow> i < lines (rd s) \<Longrightarrow>
           raw_lines (rd s) i < raw_lines (rd s) (lines (rd s))"
  using assms unfolding tty_inv_def by simp_all

lemma committed_ok_commit:
  assumes inv: "tty_inv s" and nl: "\<not> in_newline s"
    and nc: "raw_buf (put_byte (rd s) (c s) NUL) (raw_lines (rd s) (lines (rd s))) \<noteq> CHR ''^''"
  shows "committed_ok (commit d p s)"
  unfolding committed_ok_def
proof (intro conjI allI impI)
  note lt = tty_inv_D(3)[OF inv nl] and old = tty_inv_D(2)[OF inv]
    and ok = tty_inv_D(1)[OF inv]
  fix i assume "i < lines (commit d p s)"
  then have "i < lines (rd s) \<or> i = lines (rd s)" by auto
  then show "raw_buf (commit d p s) (raw_lines (commit d p s) i) \<noteq> CHR ''^''"
    using ok old[of i] lt nc by (auto simp add: committed_ok_def)
next
  note ok = tty_inv_D(1)[OF inv]
  fix q assume "result_line (commit d p s) = Some q"
  then have "result_line (rd s) = Some q \<or> q = raw_lines (rd s) (lines (rd s))"
    by (rule commit_result_line)
  then show "\<exists>i<lines (commit d p s). raw_lines (commit d p s) i = q"
    using ok by (auto simp add: committed_ok_def less_Suc_eq)
qed

lemma tty_byte_inv:
  assumes inv: "tty_inv s" and step: "tty_byte d p s ch = Cont s'"
  shows "tty_inv s'"
proof (cases ch s rule: tty_byte_cases)
  case again
  with step have s': "s' = s\<lparr>rd := put_byte (rd s) (c s) ch\<rparr>"
    by (simp add: tty_byte_eol_again)
  have "committed_ok (put_byte (rd s) (c s) ch)"
    by (rule committed_ok_frame[OF tty_inv_D(1)[OF inv]])
      (use tty_inv_D(2)[OF inv] in \<open>auto simp add: less_imp_neq\<close>)
  with s' again tty_inv_D(2)[OF inv] show ?thesis
    by (simp add: tty_inv_def)
next
  case caret
  with step have s': "s' = s\<lparr>rd := put_byte (rd s) (c s) NUL,
      c := raw_lines (rd s) (lines (rd s)), in_newline := True\<rparr>"
    by (simp add: tty_byte_caret)
  have "committed_ok (put_byte (rd s) (c s) NUL)"
    by (rule committed_ok_frame[OF tty_inv_D(1)[OF inv]])
      (use tty_inv_D(2)[OF inv] in \<open>auto simp add: less_imp_neq\<close>)
  with s' tty_inv_D(4)[OF inv caret(2)] show ?thesis
    by (simp add: tty_inv_def)
next
  case commit
  with step have s': "s' = advance d (s\<lparr>rd := commit d p s, in_newline := True\<rparr>)"
    by (simp add: tty_byte_commit split: option.splits)
  have "committed_ok (commit d p s)"
    using inv commit(2,3) by (rule committed_ok_commit)
  with s' tty_inv_D(2)[OF inv] tty_inv_D(3)[OF inv commit(2)] show ?thesis
    by (auto simp add: tty_inv_def less_Suc_eq)
next
  case start
  with step have s': "s' = advance d (s\<lparr>rd := (put_byte (rd s) (c s) ch)
                      \<lparr>raw_lines := (raw_lines (rd s))(lines (rd s) := c s)\<rparr>,
                    in_newline := False\<rparr>)"
    by (simp add: tty_byte_start split: if_splits)
  have "committed_ok ((put_byte (rd s) (c s) ch)
                      \<lparr>raw_lines := (raw_lines (rd s))(lines (rd s) := c s)\<rparr>)"
    by (rule committed_ok_frame[OF tty_inv_D(1)[OF inv]])
      (use tty_inv_D(2)[OF inv] in \<open>auto simp add: less_imp_neq\<close>)
  with s' tty_inv_D(2)[OF inv] show ?thesis
    by (auto simp add: tty_inv_def less_Suc_eq)
next
  case regular
  with step have s': "s' = advance d (s\<lparr>rd := put_byte (rd s) (c s) ch\<rparr>)"
    by (simp add: tty_byte_regular)
  have "committed_ok (put_byte (rd s) (c s) ch)"
    by (rule committed_ok_frame[OF tty_inv_D(1)[OF inv]])
      (use tty_inv_D(2)[OF inv] in \<open>auto simp add: less_imp_neq\<close>)
  with s' regular tty_inv_D(2,3,4)[OF inv] show ?thesis
    by (auto simp add: tty_inv_def less_Suc_eq)
qed

lemma tty_byte_stop:
  assumes inv: "tty_inv s" and step: "tty_byte d p s ch = Stop res r"
  shows "committed_ok r \<and> tag_ok d res r"
proof (cases ch s rule: tty_byte_cases)
  case again
  with step show ?thesis by (simp add: tty_byte_eol_again)
next
  case caret
  with step show ?thesis by (simp add: tty_byte_caret)
next
  case commit
  from step commit obtain t where r: "r = commit d p s" and res: "res = Tag t"
    and m: "match_atres ttyresstr
             (cstr d (raw_buf (commit d p s)) (raw_lines (rd s) (lines (rd s)))) = Some t"
    by (auto simp add: tty_byte_commit split: option.splits)
  have "committed_ok (commit d p s)"
    using inv commit(2,3) by (rule committed_ok_commit)
  with r res m show ?thesis by (simp add: tag_ok_def)
next
  case start
  with step have r: "r = put_byte (rd s) (c s) ch" and res: "res = Fail ERANGE"
    by (simp_all add: tty_byte_start split: if_splits)
  have "committed_ok (put_byte (rd s) (c s) ch)"
    by (rule committed_ok_frame[OF tty_inv_D(1)[OF inv]])
      (use tty_inv_D(2)[OF inv] in \<open>auto simp add: less_imp_neq\<close>)
  with r res show ?thesis by (simp add: tag_ok_def)
next
  case regular
  with step show ?thesis by (simp add: tty_byte_regular)
qed

lemma tty_read_loop_inv:
  "tty_inv s \<Longrightarrow> tty_read_loop d p s bs = Cont s' \<Longrightarrow> tty_inv s'"
proof (induction bs arbitrary: s)
  case Nil
  then show ?case by simp
next
  case (Cons ch bs)
  then show ?case
    by (auto split: if_splits step.splits dest: tty_byte_inv)
qed

lemma tty_read_loop_stop:
  "tty_inv s \<Longrightarrow> tty_read_loop d p s bs = Stop res r \<Longrightarrow> committed_ok r \<and> tag_ok d res r"
proof (induction bs arbitrary: s)
  case Nil
  then show ?case by simp
next
  case (Cons ch bs)
  show ?case
  proof (cases "raw_buf_len d \<le> c s")
    case True
    with Cons.prems show ?thesis
      by (auto simp add: tag_ok_def dest: tty_inv_committed)
  next
    case False
    show ?thesis
    proof (cases "tty_byte d p s ch")
      case (Cont s1)
      with Cons.prems False have "tty_inv s1" "tty_read_loop d p s1 bs = Stop res r"
        by (auto dest: tty_byte_inv)
      then show ?thesis by (rule Cons.IH)
    next
      case (Stop res1 r1)
      with Cons.prems False show ?thesis
        by (auto dest: tty_byte_stop)
    qed
  qed
qed

lemma tty_poll_loop_ok:
  "tty_inv s \<Longrightarrow>
   committed_ok (filled (tty_poll_loop d p timeout s ps w evs)) \<and>
   tag_ok d (outcome (tty_poll_loop d p timeout s ps w evs))
     (filled (tty_poll_loop d p timeout s ps w evs))"
proof (induction evs arbitrary: s ps w)
  case Nil
  then show ?case
    by (simp add: tty_poll_loop_Nil tag_ok_def tty_inv_committed)
next
  case (Cons ev evs)
  show ?case
  proof (cases "rem s = 0")
    case True
    with Cons.prems show ?thesis
      by (simp add: tty_poll_loop_Cons tag_ok_def tty_inv_committed)
  next
    case nz: False
    show ?thesis
    proof (cases ev)
      case (PollFail e)
      with Cons.prems nz show ?thesis
        by (simp add: tty_poll_loop_Cons tag_ok_def tty_inv_committed)
    next
      case (PollReady delay bs e)
      show ?thesis
      proof (cases "poll_expires timeout delay")
        case True
        with Cons.prems nz PollReady show ?thesis
          by (simp add: tty_poll_loop_Cons tag_ok_def tty_inv_committed)
      next
        case ready: False
        show ?thesis
        proof (cases "tty_read_loop d p s bs")
          case (Stop res r)
          with Cons.prems have "committed_ok r \<and> tag_ok d res r"
            by (auto dest: tty_read_loop_stop)
          with Stop nz PollReady ready show ?thesis
            by (simp add: tty_poll_loop_Cons)
        next
          case (Cont s1)
          with Cons.prems have inv1: "tty_inv s1"
            by (auto dest: tty_read_loop_inv)
          note IH = Cons.IH[OF inv1]
          from Cont nz PollReady ready inv1 IH show ?thesis
            by (simp add: tty_poll_loop_Cons tag_ok_def tty_inv_committed
                split: read_end.splits)
        qed
      qed
    qed
  qed
qed

lemma tty_inv_init:
  "tty_inv \<lparr>rd = r\<lparr>lines := 0, result_line := None\<rparr>, c = 0, rem = m, in_newline = True\<rparr>"
  by (simp add: tty_inv_def committed_ok_def)

lemma udiald_tty_get_ok:
  "committed_ok (filled (udiald_tty_get d r p timeout evs)) \<and>
   tag_ok d (outcome (udiald_tty_get d r p timeout evs)) (filled (udiald_tty_get d r p timeout evs))"
  unfolding udiald_tty_get_def by (rule tty_poll_loop_ok) (rule tty_inv_init)

text \<open>
  C3. For every input of the reader, no line that starts with the caret is committed: at the
  return no entry of the line array below the line count starts with the caret, the result
  line is one of these entries, and a returned tag is the one that the last of them begins
  with. When the line being read starts with the caret and its end arrives, the loop goes on
  with the line count, the line array and the result line as they were and the cursor back at
  the start of the line. For the stream \<^verbatim>\<open>^RSSI:12\<close>, \<^verbatim>\<open>+CPIN: READY\<close>, \<^verbatim>\<open>OK\<close> (each ended by
  CR LF) and the prefix \<^verbatim>\<open>+CPIN: \<close> the reader returns the tag OK, the two lines
  \<^verbatim>\<open>+CPIN: READY\<close> and \<^verbatim>\<open>OK\<close>, and the result line \<^verbatim>\<open>+CPIN: READY\<close>.
\<close>

theorem caret_lines_never_committed:
  "(\<forall>i < lines (filled (udiald_tty_get d r p timeout evs)).
      raw_buf (filled (udiald_tty_get d r p timeout evs))
        (raw_lines (filled (udiald_tty_get d r p timeout evs)) i) \<noteq> CHR ''^'') \<and>
   (\<forall>q. result_line (filled (udiald_tty_get d r p timeout evs)) = Some q \<longrightarrow>
      (\<exists>i < lines (filled (udiald_tty_get d r p timeout evs)).
         raw_lines (filled (udiald_tty_get d r p timeout evs)) i = q) \<and>
      raw_buf (filled (udiald_tty_get d r p timeout evs)) q \<noteq> CHR ''^'') \<and>
   (\<forall>t. outcome (udiald_tty_get d r p timeout evs) = Tag t \<longrightarrow>
      0 < lines (filled (udiald_tty_get d r p timeout evs)) \<and>
      match_atres ttyresstr
        (cstr d (raw_buf (filled (udiald_tty_get d r p timeout evs)))
           (raw_lines (filled (udiald_tty_get d r p timeout evs))
              (lines (filled (udiald_tty_get d r p timeout evs)) - 1))) = Some t) \<and>
   (is_eol ch \<and> \<not> in_newline s \<and> raw_lines (rd s) (lines (rd s)) < c s \<and>
    raw_buf (rd s) (raw_lines (rd s) (lines (rd s))) = CHR ''^'' \<longrightarrow>
      tty_byte d p s ch =
        Cont (s\<lparr>rd := (rd s)\<lparr>raw_buf := (raw_buf (rd s))(c s := NUL)\<rparr>,
                c := raw_lines (rd s) (lines (rd s)), in_newline := True\<rparr>)) \<and>
   outcome (udiald_tty_get dims512 stale_read (Some ''+CPIN: '') 2500 rssi_stream) =
     Tag UDIALD_AT_OK \<and>
   lines_of dims512
     (filled (udiald_tty_get dims512 stale_read (Some ''+CPIN: '') 2500 rssi_stream)) =
     [''+CPIN: READY'', ''OK''] \<and>
   map_option
     (cstr dims512
        (raw_buf (filled (udiald_tty_get dims512 stale_read (Some ''+CPIN: '') 2500 rssi_stream))))
     (result_line (filled (udiald_tty_get dims512 stale_read (Some ''+CPIN: '') 2500 rssi_stream))) =
     Some ''+CPIN: READY''"
proof -
  let ?g = "udiald_tty_get d r p timeout evs"
  have ok: "committed_ok (filled ?g)" and tag: "tag_ok d (outcome ?g) (filled ?g)"
    using udiald_tty_get_ok[of d r p timeout evs] by simp_all
  have a: "\<forall>i < lines (filled ?g). raw_buf (filled ?g) (raw_lines (filled ?g) i) \<noteq> CHR ''^''"
    using ok by (simp add: committed_ok_def)
  have b: "\<forall>q. result_line (filled ?g) = Some q \<longrightarrow>
      (\<exists>i < lines (filled ?g). raw_lines (filled ?g) i = q) \<and> raw_buf (filled ?g) q \<noteq> CHR ''^''"
    using ok unfolding committed_ok_def by blast
  have c: "\<forall>t. outcome ?g = Tag t \<longrightarrow> 0 < lines (filled ?g) \<and>
      match_atres ttyresstr
        (cstr d (raw_buf (filled ?g)) (raw_lines (filled ?g) (lines (filled ?g) - 1))) = Some t"
    using tag by (simp add: tag_ok_def)
  have e: "is_eol ch \<and> \<not> in_newline s \<and> raw_lines (rd s) (lines (rd s)) < c s \<and>
    raw_buf (rd s) (raw_lines (rd s) (lines (rd s))) = CHR ''^'' \<longrightarrow>
      tty_byte d p s ch =
        Cont (s\<lparr>rd := (rd s)\<lparr>raw_buf := (raw_buf (rd s))(c s := NUL)\<rparr>,
                c := raw_lines (rd s) (lines (rd s)), in_newline := True\<rparr>)"
    by (auto simp add: tty_byte_caret put_byte_def)
  have f: "outcome (udiald_tty_get dims512 stale_read (Some ''+CPIN: '') 2500 rssi_stream) =
     Tag UDIALD_AT_OK"
    by code_simp
  have g: "lines_of dims512
     (filled (udiald_tty_get dims512 stale_read (Some ''+CPIN: '') 2500 rssi_stream)) =
     [''+CPIN: READY'', ''OK'']"
    by code_simp
  have h: "map_option
     (cstr dims512
        (raw_buf (filled (udiald_tty_get dims512 stale_read (Some ''+CPIN: '') 2500 rssi_stream))))
     (result_line (filled (udiald_tty_get dims512 stale_read (Some ''+CPIN: '') 2500 rssi_stream))) =
     Some ''+CPIN: READY''"
    by code_simp
  from a b c e f g h show ?thesis by blast
qed

theorem caret_lines_never_committed_witness:
  "is_eol LF \<and>
   \<not> in_newline \<lparr>rd = stale_read\<lparr>raw_buf := (\<lambda>i. CHR ''^''), lines := 0\<rparr>, c = 9,
                  rem = 503, in_newline = False\<rparr> \<and>
   tty_byte dims512 (Some ''+CPIN: '')
     \<lparr>rd = stale_read\<lparr>raw_buf := (\<lambda>i. CHR ''^''), lines := 0\<rparr>, c = 9, rem = 503,
      in_newline = False\<rparr> LF =
   Cont \<lparr>rd = stale_read\<lparr>raw_buf := (\<lambda>i. CHR ''^'')(9 := NUL), lines := 0\<rparr>, c = 7,
         rem = 503, in_newline = True\<rparr> \<and>
   outcome (udiald_tty_get dims512 stale_read (Some ''+CPIN: '') 2500 rssi_stream) =
     Tag UDIALD_AT_OK \<and>
   0 < lines (filled (udiald_tty_get dims512 stale_read (Some ''+CPIN: '') 2500 rssi_stream)) \<and>
   raw_buf (filled (udiald_tty_get dims512 stale_read (Some ''+CPIN: '') 2500 rssi_stream))
     (raw_lines (filled (udiald_tty_get dims512 stale_read (Some ''+CPIN: '') 2500
        rssi_stream)) 0) \<noteq> CHR ''^''"
  using caret_lines_never_committed
    [of dims512 stale_read "Some ''+CPIN: ''" 2500 rssi_stream LF
      "\<lparr>rd = stale_read\<lparr>raw_buf := (\<lambda>i. CHR ''^''), lines := 0\<rparr>, c = 9, rem = 503,
        in_newline = False\<rparr>"]
  by (simp add: is_eol_def stale_read_def)

section \<open>Properties of the flattener\<close>

lemma flatten_copy_Nil [simp]: "flatten_copy cap [] out = Some out"
  by (subst flatten_copy.simps) simp

lemma flatten_copy_fits:
  "length out + length ins \<le> cap \<Longrightarrow> flatten_copy cap ins out = Some (out @ ins)"
proof (induction ins arbitrary: out)
  case Nil
  then show ?case by simp
next
  case (Cons ch rest)
  then have "flatten_copy cap rest (out @ [ch]) = Some ((out @ [ch]) @ rest)"
    by (intro Cons.IH) simp
  with Cons.prems show ?case
    by (subst flatten_copy.simps) simp
qed

text \<open>
  Where the copy loop returns, the line was empty or fitted: by the induction principle of
  the least fixed point, a return from the full buffer would need a return from the same
  state.
\<close>

lemma flatten_copy_Some_fits:
  assumes "flatten_copy cap ins out = Some res"
  shows "length out \<le> cap \<longrightarrow> ins = [] \<or> length out + length ins \<le> cap"
  using assms
proof (induction cap ins out res rule: flatten_copy.raw_induct[rotated 1, consumes 1, case_names step])
  case (step copy cap ins out res)
  show ?case
  proof (cases ins)
    case Nil
    then show ?thesis by simp
  next
    case (Cons ch rest)
    show ?thesis
    proof (cases "length out = cap")
      case True
      with step(2) Cons have "copy cap ins out = Some res" by simp
      then show ?thesis by (rule step(1))
    next
      case False
      with step(2) Cons have "copy cap rest (out @ [ch]) = Some res" by simp
      then have "length (out @ [ch]) \<le> cap \<longrightarrow>
          rest = [] \<or> length (out @ [ch]) + length rest \<le> cap"
        by (rule step(1))
      with False Cons show ?thesis by auto
    qed
  qed
qed

lemma flatten_copy_stuck:
  assumes "length out \<le> cap" "ins \<noteq> []" "cap < length out + length ins"
  shows "flatten_copy cap ins out = None"
proof (cases "flatten_copy cap ins out")
  case None
  then show ?thesis .
next
  case (Some res)
  from flatten_copy_Some_fits[OF Some] assms show ?thesis by simp
qed

lemma flatten_copy_eval:
  "length out \<le> cap \<Longrightarrow>
   flatten_copy cap ins out =
     (if ins = [] \<or> length out + length ins \<le> cap then Some (out @ ins) else None)"
  by (auto simp add: flatten_copy_fits flatten_copy_stuck)

lemma quoted_csv_Cons:
  "quoted_csv (l # ls) = DQUOTE # l @ [DQUOTE] @ (if ls = [] then [] else '', '' @ quoted_csv ls)"
  by (cases ls) simp_all

lemma quoted_csv_nonempty: "ls \<noteq> [] \<Longrightarrow> quoted_csv ls \<noteq> []"
  by (cases ls) (simp_all add: quoted_csv_Cons)

lemma flatten_lines_fits:
  "length out + length (quoted_csv ls) \<le> cap \<Longrightarrow>
   flatten_lines cap ls out = Some (out @ quoted_csv ls)"
proof (induction ls arbitrary: out)
  case Nil
  then show ?case by simp
next
  case (Cons l ls)
  show ?case
  proof (cases "ls = []")
    case True
    with Cons.prems show ?thesis
      by (simp add: flat_push_def flatten_copy_fits Let_def)
  next
    case False
    then have ne: "quoted_csv ls \<noteq> []" by (rule quoted_csv_nonempty)
    let ?out5 = "out @ DQUOTE # l @ [DQUOTE] @ '', ''"
    from Cons.prems False have len: "length ?out5 + length (quoted_csv ls) \<le> cap"
      by (simp add: quoted_csv_Cons)
    with ne have lt: "length ?out5 < cap"
      by (cases "quoted_csv ls") auto
    have "flatten_lines cap ls ?out5 = Some (?out5 @ quoted_csv ls)"
      using len by (rule Cons.IH)
    with lt False show ?thesis
      by (simp add: flat_push_def flatten_copy_fits Let_def quoted_csv_Cons)
  qed
qed

lemma lines_of_flat_buf [simp]: "lines_of d (r\<lparr>flat_buf := s\<rparr>) = lines_of d r"
  by (simp add: lines_of_def)

text \<open>
  What the claim on the flattener says holds as long as the string fits the scratch buffer:
  the result is the quoted, comma-separated list, and a second call gives the same.
\<close>

lemma flatten_fits:
  "length (quoted_csv (lines_of d r)) \<le> flat_buf_len d - 1 \<Longrightarrow>
   udiald_tty_flatten_result d r = Some (r\<lparr>flat_buf := quoted_csv (lines_of d r)\<rparr>)"
  by (simp add: udiald_tty_flatten_result_def flatten_lines_fits)

lemma flatten_idem:
  "udiald_tty_flatten_result d r = Some r' \<Longrightarrow> udiald_tty_flatten_result d r' = Some r'"
  by (auto simp add: udiald_tty_flatten_result_def)

lemma long_error_reply_lines:
  "lines_of dims64 (filled (udiald_tty_get dims64 stale_read None 5000 long_error_reply)) =
     [replicate 57 (CHR ''A''), ''ERROR'']"
  by code_simp

lemma long_error_reply_outcome:
  "outcome (udiald_tty_get dims64 stale_read None 5000 long_error_reply) = Tag UDIALD_AT_ERROR"
  by code_simp

lemma long_error_reply_flatten:
  "udiald_tty_flatten_result dims64
     (filled (udiald_tty_get dims64 stale_read None 5000 long_error_reply)) = None"
  unfolding udiald_tty_flatten_result_def long_error_reply_lines
  by (simp add: dims64_def flat_push_def flatten_copy_eval Let_def)

lemma long_line_reply_lines:
  "lines_of dims64 (filled (udiald_tty_get dims64 stale_read None 2500 long_line_reply)) =
     [replicate 63 (CHR ''B'')]"
  by code_simp

text \<open>
  C8. The flattener does not truncate: when the first committed line is not empty and is at
  least as long as the scratch buffer less its terminating NUL, the copy loop reaches the
  end of the buffer inside the line, stops advancing, and the call never returns.
\<close>

theorem flatten_never_returns_on_long_line:
  assumes "lines_of d r = l # ls" "l \<noteq> []" "flat_buf_len d - 1 \<le> length l"
  shows "udiald_tty_flatten_result d r = None"
proof -
  have "flatten_copy (flat_buf_len d - 1) l (flat_push (flat_buf_len d - 1) [] DQUOTE) = None"
    using assms(2,3) by (intro flatten_copy_stuck) (auto simp add: flat_push_def)
  with assms(1) show ?thesis
    by (simp add: udiald_tty_flatten_result_def)
qed

theorem flatten_never_returns_on_long_line_witness:
  "lines_of dims64 (filled (udiald_tty_get dims64 stale_read None 2500 long_line_reply)) =
     [replicate 63 (CHR ''B'')] \<and>
   flat_buf_len dims64 - 1 = 63 \<and>
   udiald_tty_flatten_result dims64
     (filled (udiald_tty_get dims64 stale_read None 2500 long_line_reply)) = None"
proof -
  have l: "lines_of dims64 (filled (udiald_tty_get dims64 stale_read None 2500 long_line_reply)) =
     [replicate 63 (CHR ''B'')]"
    by (rule long_line_reply_lines)
  have n: "replicate 63 (CHR ''B'') \<noteq> []" by simp
  have f: "flat_buf_len dims64 - 1 = 63" by (simp add: dims64_def)
  then have c: "flat_buf_len dims64 - 1 \<le> length (replicate 63 (CHR ''B''))" by simp
  from flatten_never_returns_on_long_line[OF l n c] l f show ?thesis by blast
qed

section \<open>Properties of the poll loop\<close>

lemma tty_byte_stop_kind:
  assumes "tty_byte d p s ch = Stop res r"
  shows "reader_returns res"
proof (cases ch s rule: tty_byte_cases)
  case again
  with assms show ?thesis by (simp add: tty_byte_eol_again)
next
  case caret
  with assms show ?thesis by (simp add: tty_byte_caret)
next
  case commit
  with assms show ?thesis by (auto simp add: tty_byte_commit split: option.splits)
next
  case start
  with assms show ?thesis by (auto simp add: tty_byte_start split: if_splits)
next
  case regular
  with assms show ?thesis by (simp add: tty_byte_regular)
qed

lemma reader_returns_D:
  "reader_returns res \<Longrightarrow> res \<noteq> Blocked \<and> res \<noteq> Spin \<and> res \<noteq> Overrun"
  by (cases res) simp_all

lemma tty_read_loop_not_blocked:
  "tty_read_loop d p s bs = Stop res r \<Longrightarrow> res \<noteq> Blocked \<and> res \<noteq> Spin"
proof (induction bs arbitrary: s)
  case Nil
  then show ?case by simp
next
  case (Cons ch bs)
  then show ?case
    by (auto split: if_splits step.splits dest: tty_byte_stop_kind)
qed

text \<open>
  The cursor moves up by one byte at most, so a stream that fits \<open>raw_buf\<close> never takes it
  past the end; and short of a hang-up every way out of the loops is a return.
\<close>

lemma tty_byte_cursor:
  assumes inv: "tty_inv s" and step: "tty_byte d p s ch = Cont s'"
  shows "c s' \<le> c s + 1"
proof (cases ch s rule: tty_byte_cases)
  case again
  with step show ?thesis by (auto simp add: tty_byte_eol_again)
next
  case caret
  with step tty_inv_D(3)[OF inv] show ?thesis by (auto simp add: tty_byte_caret)
next
  case commit
  with step show ?thesis by (auto simp add: tty_byte_commit split: option.splits)
next
  case start
  with step show ?thesis by (auto simp add: tty_byte_start split: if_splits)
next
  case regular
  with step show ?thesis by (auto simp add: tty_byte_regular)
qed

lemma tty_read_loop_returns:
  "tty_inv s \<Longrightarrow> c s + length bs \<le> raw_buf_len d \<Longrightarrow>
   (case tty_read_loop d p s bs of
      Cont s' \<Rightarrow> c s' \<le> c s + length bs
    | Stop res r \<Rightarrow> reader_returns res)"
proof (induction bs arbitrary: s)
  case Nil
  then show ?case by simp
next
  case (Cons ch bs)
  from Cons.prems have room: "\<not> raw_buf_len d \<le> c s" by simp
  show ?case
  proof (cases "tty_byte d p s ch")
    case (Stop res r)
    with room tty_byte_stop_kind[OF Stop] show ?thesis by simp
  next
    case (Cont s1)
    from tty_byte_inv[OF Cons.prems(1) Cont] have inv1: "tty_inv s1" .
    from tty_byte_cursor[OF Cons.prems(1) Cont] have c1: "c s1 \<le> c s + 1" .
    with Cons.prems(2) have "c s1 + length bs \<le> raw_buf_len d" by simp
    from Cons.IH[OF inv1 this] c1 Cont room show ?thesis
      by (auto split: step.splits)
  qed
qed

lemma tty_poll_loop_returns:
  "tty_inv s \<Longrightarrow> 0 \<le> timeout \<Longrightarrow> \<not> list_ex hangs_up evs \<Longrightarrow>
   c s + sum_list (map bytes_of evs) \<le> raw_buf_len d \<Longrightarrow>
   reader_returns (outcome (tty_poll_loop d p timeout s ps w evs))"
proof (induction evs arbitrary: s ps w)
  case Nil
  then show ?case by (simp add: tty_poll_loop_Nil)
next
  case (Cons ev evs)
  show ?case
  proof (cases "rem s = 0")
    case True
    then show ?thesis by (simp add: tty_poll_loop_Cons)
  next
    case nz: False
    show ?thesis
    proof (cases ev)
      case (PollFail e)
      with nz show ?thesis by (simp add: tty_poll_loop_Cons)
    next
      case (PollReady delay bs e)
      show ?thesis
      proof (cases "poll_expires timeout delay")
        case True
        with nz PollReady show ?thesis by (simp add: tty_poll_loop_Cons)
      next
        case ready: False
        from Cons.prems(3) PollReady obtain err where e: "e = ReadErr err"
          by (cases e) simp_all
        from Cons.prems(4) PollReady
        have fit: "c s + length bs \<le> raw_buf_len d"
          and rest: "c s + length bs + sum_list (map bytes_of evs) \<le> raw_buf_len d"
          by simp_all
        note rl = tty_read_loop_returns[OF Cons.prems(1) fit, of p]
        show ?thesis
        proof (cases "tty_read_loop d p s bs")
          case (Stop res r)
          with rl nz PollReady ready show ?thesis by (simp add: tty_poll_loop_Cons)
        next
          case (Cont s1)
          from tty_read_loop_inv[OF Cons.prems(1) Cont] have inv1: "tty_inv s1" .
          from rl Cont rest have "c s1 + sum_list (map bytes_of evs) \<le> raw_buf_len d"
            by simp
          from Cons.IH[OF inv1 Cons.prems(2) _ this] Cons.prems(3)
          have "reader_returns
              (outcome (tty_poll_loop d p timeout s1 (ps @ [timeout]) (w + delay) evs))"
            by simp
          with Cont nz PollReady ready e show ?thesis
            by (simp add: tty_poll_loop_Cons)
        qed
      qed
    qed
  qed
qed

lemma udiald_tty_get_returns:
  "0 \<le> timeout \<Longrightarrow> reply_fits d evs \<Longrightarrow>
   reader_returns (outcome (udiald_tty_get d r p timeout evs))"
  unfolding udiald_tty_get_def reply_fits_def
  by (rule tty_poll_loop_returns) (simp_all add: tty_inv_init)

lemma tty_poll_loop_not_blocked:
  "0 \<le> timeout \<Longrightarrow> outcome (tty_poll_loop d p timeout s ps w evs) \<noteq> Blocked"
proof (induction d p timeout s ps w evs rule: tty_poll_loop.induct)
  case (1 d p timeout s ps w evs)
  show ?case
    apply (subst tty_poll_loop.simps)
    using 1
    apply (auto split: list.splits poll_ev.splits step.splits read_end.splits
        dest: tty_read_loop_not_blocked)
    done
qed

lemma udiald_tty_get_not_blocked:
  "0 \<le> timeout \<Longrightarrow> outcome (udiald_tty_get d r p timeout evs) \<noteq> Blocked"
  by (simp add: udiald_tty_get_def tty_poll_loop_not_blocked)

lemma tty_poll_loop_polls:
  "set (polls (tty_poll_loop d p timeout s ps w evs)) \<subseteq> set ps \<union> {timeout}"
proof (induction d p timeout s ps w evs rule: tty_poll_loop.induct)
  case (1 d p timeout s ps w evs)
  show ?case
    apply (subst tty_poll_loop.simps)
    using 1
    apply (auto split: list.splits poll_ev.splits step.splits read_end.splits)
    done
qed

lemma tty_poll_loop_waited:
  "0 \<le> timeout \<Longrightarrow> w \<le> length ps * nat timeout \<Longrightarrow>
   waited (tty_poll_loop d p timeout s ps w evs) \<le>
     length (polls (tty_poll_loop d p timeout s ps w evs)) * nat timeout"
proof (induction d p timeout s ps w evs rule: tty_poll_loop.induct)
  case (1 d p timeout s ps w evs)
  show ?case
    apply (subst (1 2) tty_poll_loop.simps)
    using 1
    apply (auto simp add: poll_expires_def
        split: list.splits poll_ev.splits step.splits read_end.splits)
    done
qed

text \<open>
  C5, as amended. Every \<^verbatim>\<open>poll\<close> of a call is handed the caller's timeout as it is, not what
  is left of it, so the time that a call with a timeout \<open>T \<ge> 0\<close> spends waiting is bounded by
  \<open>T\<close> for each poll it makes. When a poll expires with no data, on a line that sends later
  than \<open>T\<close> or never, the reader returns the failure with \<^verbatim>\<open>ETIMEDOUT\<close>.
\<close>

theorem poll_gets_the_full_timeout:
  "set (polls (udiald_tty_get d r p timeout evs)) \<subseteq> {timeout} \<and>
   (0 \<le> timeout \<longrightarrow>
      waited (udiald_tty_get d r p timeout evs) \<le>
        length (polls (udiald_tty_get d r p timeout evs)) * nat timeout) \<and>
   (rem s \<noteq> 0 \<and> poll_expires timeout delay \<longrightarrow>
      outcome (tty_poll_loop d p timeout s ps w (PollReady delay bs e # rest)) =
        Fail ETIMEDOUT) \<and>
   (rem s \<noteq> 0 \<and> 0 \<le> timeout \<longrightarrow>
      outcome (tty_poll_loop d p timeout s ps w []) = Fail ETIMEDOUT) \<and>
   (0 < raw_buf_len d \<and> int (raw_buf_len d) < 2 ^ size_bits d \<and> 0 \<le> timeout \<longrightarrow>
      outcome (udiald_tty_get d r p timeout []) = Fail ETIMEDOUT \<and>
      polls (udiald_tty_get d r p timeout []) = [timeout] \<and>
      waited (udiald_tty_get d r p timeout []) = nat timeout)"
proof -
  have a: "set (polls (udiald_tty_get d r p timeout evs)) \<subseteq> {timeout}"
    using tty_poll_loop_polls[of d p timeout _ "[]" 0 evs]
    by (simp add: udiald_tty_get_def)
  have b: "0 \<le> timeout \<longrightarrow>
      waited (udiald_tty_get d r p timeout evs) \<le>
        length (polls (udiald_tty_get d r p timeout evs)) * nat timeout"
    using tty_poll_loop_waited[of timeout 0 "[]" d p _ evs]
    by (simp add: udiald_tty_get_def)
  have c: "rem s \<noteq> 0 \<and> poll_expires timeout delay \<longrightarrow>
      outcome (tty_poll_loop d p timeout s ps w (PollReady delay bs e # rest)) = Fail ETIMEDOUT"
    by (simp add: tty_poll_loop_Cons)
  have e: "rem s \<noteq> 0 \<and> 0 \<le> timeout \<longrightarrow>
      outcome (tty_poll_loop d p timeout s ps w []) = Fail ETIMEDOUT"
    by (simp add: tty_poll_loop_Nil)
  have f: "0 < raw_buf_len d \<and> int (raw_buf_len d) < 2 ^ size_bits d \<and> 0 \<le> timeout \<longrightarrow>
      outcome (udiald_tty_get d r p timeout []) = Fail ETIMEDOUT \<and>
      polls (udiald_tty_get d r p timeout []) = [timeout] \<and>
      waited (udiald_tty_get d r p timeout []) = nat timeout"
    by (simp add: udiald_tty_get_def tty_poll_loop_Nil)
  from a b c e f show ?thesis by blast
qed

theorem poll_gets_the_full_timeout_witness:
  "set (polls (udiald_tty_get dims512 stale_read None 2500 trickle_reply)) \<subseteq> {2500} \<and>
   waited (udiald_tty_get dims512 stale_read None 2500 trickle_reply) \<le>
     length (polls (udiald_tty_get dims512 stale_read None 2500 trickle_reply)) * 2500 \<and>
   outcome (udiald_tty_get dims512 stale_read None 2500 []) = Fail ETIMEDOUT \<and>
   waited (udiald_tty_get dims512 stale_read None 2500 []) = 2500"
  using poll_gets_the_full_timeout[of dims512 stale_read None 2500 trickle_reply]
    poll_gets_the_full_timeout[of dims512 stale_read None 2500 "[]"]
  by (simp add: dims512_def)

text \<open>
  C5, the claim as it stands fails: on a reply in two pieces, each two seconds after its poll
  begins, a call with a timeout of 2500 ms hands 2500 to the second poll as well, waits four
  seconds in all and returns the tag, not \<^verbatim>\<open>ETIMEDOUT\<close>.
\<close>

theorem poll_remaining_timeout_counterexample:
  "outcome (udiald_tty_get dims512 stale_read None 2500 trickle_reply) = Tag UDIALD_AT_OK \<and>
   polls (udiald_tty_get dims512 stale_read None 2500 trickle_reply) = [2500, 2500] \<and>
   waited (udiald_tty_get dims512 stale_read None 2500 trickle_reply) = 4000"
  by code_simp

section \<open>Properties of the session\<close>

lemma exit_code_of_exitcode [simp]:
  "exit_code_of (udiald_exitcode st code fmt) =
     Some (if code \<noteq> UDIALD_OK \<and> UDIALD_FLAG_SIGNALED \<in> flags st then UDIALD_ESIGNALED
           else code)"
  by (simp add: udiald_exitcode_def Let_def)

lemma config_keep [simp]:
  "ctl_sent (udiald_config_set st k v) = ctl_sent st"
  "ctl_sent (udiald_config_set_int st k n) = ctl_sent st"
  "ctl_sent (udiald_config_revert st k) = ctl_sent st"
  "ctl_sent (udiald_config_append st k v) = ctl_sent st"
  "app (udiald_config_set st k v) = app st"
  "app (udiald_config_set_int st k n) = app st"
  "app (udiald_config_revert st k) = app st"
  "flags (udiald_config_set st k v) = flags st"
  "flags (udiald_config_revert st k) = flags st"
  "filter_spec (udiald_config_set st k v) = filter_spec st"
  "filter_spec (udiald_config_set_int st k n) = filter_spec st"
  "filter_spec (udiald_config_revert st k) = filter_spec st"
  "filter_spec (udiald_config_append st k v) = filter_spec st"
  "modem (udiald_config_set st k v) = modem st"
  "modem (udiald_config_append st k v) = modem st"
  "custom_profiles (udiald_config_set st k v) = custom_profiles st"
  "custom_profiles (udiald_config_revert st k) = custom_profiles st"
  by (simp_all add: udiald_config_set_def udiald_config_set_int_def udiald_config_revert_def
      udiald_config_append_def)

lemma sent_by_exitcode [simp]:
  "sent_by (udiald_exitcode st code fmt) = Some (ctl_sent st)"
  by (simp add: udiald_exitcode_def Let_def split: option.splits)

lemma sent_simps [simp]:
  "ctl_sent (sent st cmd) = ctl_sent st @ [cmd]" "flags (sent st cmd) = flags st"
  "app (sent st cmd) = app st"
  by (simp_all add: sent_def)

lemma foldl_revert_keep [simp]:
  "ctl_sent (foldl udiald_config_revert st ks) = ctl_sent st"
  "flags (foldl udiald_config_revert st ks) = flags st"
  "app (foldl udiald_config_revert st ks) = app st"
  "filter_spec (foldl udiald_config_revert st ks) = filter_spec st"
  "custom_profiles (foldl udiald_config_revert st ks) = custom_profiles st"
  by (induction ks arbitrary: st) simp_all

lemma strpbrk_iff: "strpbrk s accept \<longleftrightarrow> (\<exists>ch \<in> set s. ch \<in> set accept)"
  by (simp add: strpbrk_def list_ex_iff)

lemma strpbrk_nonempty: "strpbrk s accept \<Longrightarrow> s \<noteq> []"
  by (auto simp add: strpbrk_iff)

subsection \<open>Entering the PIN\<close>

text \<open>
  For every session whose PIN is well-formed and equals the recorded \<^verbatim>\<open>failed_pin\<close>, the phase
  sends nothing; outside probe mode it ends the process through the SIM error.
\<close>

lemma enter_pin_refuses_failed_pin:
  assumes "effective_pin st = Some p" "p \<noteq> []" "\<not> strpbrk p pin_forbidden"
    and "ucix_get_option (uci st) UCI_SECTION_GLOBAL ''failed_pin'' = Some p"
  shows "udiald_enter_pin d st env =
     (if app st \<noteq> UDIALD_APP_PROBE
      then udiald_exitcode st UDIALD_ESIM
             (Some (''Not retrying previously failed pin ('' @ p @ '')''))
      else Return st)"
  using assms by (simp add: udiald_enter_pin_def effective_pin_def)

text \<open>
  C1. With \<^verbatim>\<open>failed_pin=1234\<close> recorded and \<^verbatim>\<open>udiald_pin=1234\<close> configured, the enter-PIN
  phase of a connect run writes nothing to the control line, and the process exits with the
  SIM error, code 6; the unlock error that the claim names is code 7.
\<close>

theorem refused_pin_exits_with_sim_error:
  "exit_code_of (udiald_enter_pin dims512
      ((fresh_session UDIALD_APP_CONNECT failed_pin_store)\<lparr>sim_state := 1\<rparr>) quiet_line) =
     Some UDIALD_ESIM \<and>
   exit_status UDIALD_ESIM = 6 \<and> exit_status UDIALD_EUNLOCK = 7 \<and>
   sent_by (udiald_enter_pin dims512
      ((fresh_session UDIALD_APP_CONNECT failed_pin_store)\<lparr>sim_state := 1\<rparr>) quiet_line) =
     Some []"
  by code_simp

subsection \<open>The test of the previous unlock error\<close>

text \<open>
  The test reads the key \<^verbatim>\<open>udiald_error\<close>: with that key absent it never stops a run. And
  \<^verbatim>\<open>udiald_exitcode\<close> leaves that key as it finds it.
\<close>

lemma t_test_needs_udiald_error:
  "udiald_config_get st ''udiald_error'' = None \<Longrightarrow>
     aborted (udiald_main_select st cands) = None"
  by (simp add: udiald_main_select_def udiald_config_get_int_def Let_def)

lemma exitcode_leaves_udiald_error:
  "store_of (udiald_exitcode st code fmt) (networkname st, ''udiald_error'') =
     uci st (networkname st, ''udiald_error'')"
  by (simp add: udiald_exitcode_def Let_def udiald_config_set_def udiald_config_set_int_def
      udiald_config_revert_def ucix_add_option_def ucix_revert_def split: option.splits)

text \<open>
  C2. A connect run that ends with the unlock error leaves \<^verbatim>\<open>udiald_error_code=7\<close> in the
  store and no \<^verbatim>\<open>udiald_error\<close>. The next connect run, started with \<^verbatim>\<open>-t\<close> on that store, does
  not stop at the test: it goes on to modem discovery (and here, with no device attached, ends
  there). The test does stop a run once the key \<^verbatim>\<open>udiald_error\<close> it reads holds 7.
\<close>

theorem t_flag_misses_recorded_unlock_error:
  "ucix_get_option unlock_failure_store ''wan'' ''udiald_error_code'' = Some ''7'' \<and>
   ucix_get_option unlock_failure_store ''wan'' ''udiald_error'' = None \<and>
   aborted (udiald_main_select rerun_with_t []) = None \<and>
   map_option exit_code_of (selection (udiald_main_select rerun_with_t [])) =
     Some (Some UDIALD_ENODEV) \<and>
   aborted (udiald_main_select
      (udiald_config_set rerun_with_t ''udiald_error'' ''7'') []) = Some UDIALD_EUNLOCK"
  by code_simp

subsection \<open>Identification\<close>

text \<open>
  C4, as amended. The identify phase sends \<^verbatim>\<open>AT+CGMI;+CGMM\<close>. It goes on, with the first two
  committed lines joined by one space stored as \<^verbatim>\<open>modem_name\<close>, when the command is written,
  the reader returns the OK tag and at least three lines are committed; the line that carries
  the terminator is the last committed line and counts among the three, so two lines before
  it suffice. When the command cannot be written, or the reader returns with anything else,
  the phase ends the process through the modem error, which exits as \<^verbatim>\<open>EMODEM\<close>, or as
  \<^verbatim>\<open>SIGNALED\<close> when the signaled flag is set. The reader does return whenever the line does
  not hang up and the bytes that arrive fit \<open>raw_buf\<close>.
\<close>

theorem identify_counts_the_terminator_line:
  "(wr_ok env \<and>
    outcome (udiald_tty_get d (r_uninit env) None 2500 (incoming env)) = Tag UDIALD_AT_OK \<and>
    3 \<le> lines (filled (udiald_tty_get d (r_uninit env) None 2500 (incoming env))) \<longrightarrow>
      udiald_identify d st env =
        Return (udiald_config_set (sent st (''AT+CGMI;+CGMM'' @ [CR])) ''modem_name''
          (take 511
            (cstr d (raw_buf (filled (udiald_tty_get d (r_uninit env) None 2500 (incoming env))))
               (raw_lines (filled (udiald_tty_get d (r_uninit env) None 2500 (incoming env))) 0) @
             '' '' @
             cstr d (raw_buf (filled (udiald_tty_get d (r_uninit env) None 2500 (incoming env))))
               (raw_lines (filled (udiald_tty_get d (r_uninit env) None 2500 (incoming env)))
                  1))))) \<and>
   ((\<not> wr_ok env \<or>
     reader_returns (outcome (udiald_tty_get d (r_uninit env) None 2500 (incoming env))) \<and>
     \<not> (outcome (udiald_tty_get d (r_uninit env) None 2500 (incoming env)) = Tag UDIALD_AT_OK \<and>
        3 \<le> lines (filled (udiald_tty_get d (r_uninit env) None 2500 (incoming env))))) \<longrightarrow>
      udiald_identify d st env =
        udiald_exitcode (sent st (''AT+CGMI;+CGMM'' @ [CR])) UDIALD_EMODEM
          (Some ''Unable to identify modem'') \<and>
      exit_code_of (udiald_identify d st env) =
        Some (if UDIALD_FLAG_SIGNALED \<in> flags st then UDIALD_ESIGNALED else UDIALD_EMODEM)) \<and>
   (reply_fits d (incoming env) \<longrightarrow>
      reader_returns (outcome (udiald_tty_get d (r_uninit env) None 2500 (incoming env)))) \<and>
   (\<forall>t. outcome (udiald_tty_get d (r_uninit env) None 2500 (incoming env)) = Tag t \<longrightarrow>
      0 < lines (filled (udiald_tty_get d (r_uninit env) None 2500 (incoming env))) \<and>
      match_atres ttyresstr
        (cstr d (raw_buf (filled (udiald_tty_get d (r_uninit env) None 2500 (incoming env))))
           (raw_lines (filled (udiald_tty_get d (r_uninit env) None 2500 (incoming env)))
              (lines (filled (udiald_tty_get d (r_uninit env) None 2500 (incoming env))) - 1))) =
        Some t)"
proof -
  let ?g = "udiald_tty_get d (r_uninit env) None 2500 (incoming env)"
  from udiald_tty_get_ok[of d "r_uninit env" None 2500 "incoming env"]
  have tag: "tag_ok d (outcome ?g) (filled ?g)" by simp
  have a: "wr_ok env \<and> outcome ?g = Tag UDIALD_AT_OK \<and> 3 \<le> lines (filled ?g) \<longrightarrow>
      udiald_identify d st env =
        Return (udiald_config_set (sent st (''AT+CGMI;+CGMM'' @ [CR])) ''modem_name''
          (take 511 (cstr d (raw_buf (filled ?g)) (raw_lines (filled ?g) 0) @ '' '' @
                     cstr d (raw_buf (filled ?g)) (raw_lines (filled ?g) 1))))"
    by (simp add: udiald_identify_def exchange_of_def udiald_tty_put_def Let_def)
  have b: "(\<not> wr_ok env \<or>
      reader_returns (outcome ?g) \<and>
      \<not> (outcome ?g = Tag UDIALD_AT_OK \<and> 3 \<le> lines (filled ?g))) \<longrightarrow>
      udiald_identify d st env =
        udiald_exitcode (sent st (''AT+CGMI;+CGMM'' @ [CR])) UDIALD_EMODEM
          (Some ''Unable to identify modem'')"
    by (cases "outcome ?g")
      (auto simp add: udiald_identify_def exchange_of_def udiald_tty_put_def Let_def)
  have r: "reply_fits d (incoming env) \<longrightarrow> reader_returns (outcome ?g)"
    by (simp add: udiald_tty_get_returns)
  have c: "\<forall>t. outcome ?g = Tag t \<longrightarrow> 0 < lines (filled ?g) \<and>
      match_atres ttyresstr
        (cstr d (raw_buf (filled ?g)) (raw_lines (filled ?g) (lines (filled ?g) - 1))) = Some t"
    using tag by (simp add: tag_ok_def)
  from a b r c show ?thesis by simp
qed

text \<open>
  On a line that hangs up before a terminator has arrived the reader never returns, and
  neither does the phase.
\<close>

lemma identify_hangs_at_hang_up:
  "wr_ok env \<Longrightarrow> outcome (udiald_tty_get d (r_uninit env) None 2500 (incoming env)) = Spin \<Longrightarrow>
   udiald_identify d st env = Hang"
  by (simp add: udiald_identify_def exchange_of_def udiald_tty_put_def Let_def)

lemma e220_reply_read:
  "outcome (udiald_tty_get dims512 stale_read None 2500 (incoming e220_reply)) =
     Tag UDIALD_AT_OK"
  "lines (filled (udiald_tty_get dims512 stale_read None 2500 (incoming e220_reply))) = 3"
  "lines_of dims512 (filled (udiald_tty_get dims512 stale_read None 2500 (incoming e220_reply))) =
     [''Huawei'', ''E220'', ''OK'']"
  "reply_fits dims512 (incoming e220_reply)"
  by code_simp+

lemma one_line_reply_read:
  "outcome (udiald_tty_get dims512 stale_read None 2500 (incoming one_line_reply)) =
     Tag UDIALD_AT_OK"
  "lines (filled (udiald_tty_get dims512 stale_read None 2500 (incoming one_line_reply))) = 2"
  "reply_fits dims512 (incoming one_line_reply)"
  by code_simp+

lemma hang_up_reply_read:
  "outcome (udiald_tty_get dims512 stale_read None 2500 (incoming hang_up_reply)) = Spin"
  "\<not> reply_fits dims512 (incoming hang_up_reply)"
  by code_simp+

lemma identify_hangs_on_hang_up_reply:
  "udiald_identify dims512 (fresh_session UDIALD_APP_SCAN Map.empty) hang_up_reply = Hang"
proof (rule identify_hangs_at_hang_up)
  show "wr_ok hang_up_reply"
    by (simp add: hang_up_reply_def)
  have "r_uninit hang_up_reply = stale_read"
    by (simp add: hang_up_reply_def)
  with hang_up_reply_read(1)
  show "outcome (udiald_tty_get dims512 (r_uninit hang_up_reply) None 2500
      (incoming hang_up_reply)) = Spin"
    by simp
qed

theorem identify_counts_the_terminator_line_witness:
  "wr_ok e220_reply \<and>
   reply_fits dims512 (incoming e220_reply) \<and>
   outcome (udiald_tty_get dims512 (r_uninit e220_reply) None 2500 (incoming e220_reply)) =
     Tag UDIALD_AT_OK \<and>
   lines (filled (udiald_tty_get dims512 (r_uninit e220_reply) None 2500 (incoming e220_reply))) =
     3 \<and>
   returned (udiald_identify dims512 (fresh_session UDIALD_APP_SCAN Map.empty) e220_reply) =
     Some (udiald_config_set
       (sent (fresh_session UDIALD_APP_SCAN Map.empty) (''AT+CGMI;+CGMM'' @ [CR])) ''modem_name''
       (take 511
         (cstr dims512
            (raw_buf (filled (udiald_tty_get dims512 (r_uninit e220_reply) None 2500
               (incoming e220_reply))))
            (raw_lines (filled (udiald_tty_get dims512 (r_uninit e220_reply) None 2500
               (incoming e220_reply))) 0) @
          '' '' @
          cstr dims512
            (raw_buf (filled (udiald_tty_get dims512 (r_uninit e220_reply) None 2500
               (incoming e220_reply))))
            (raw_lines (filled (udiald_tty_get dims512 (r_uninit e220_reply) None 2500
               (incoming e220_reply))) 1)))) \<and>
   reply_fits dims512 (incoming one_line_reply) \<and>
   reader_returns
     (outcome (udiald_tty_get dims512 (r_uninit one_line_reply) None 2500
        (incoming one_line_reply))) \<and>
   lines (filled (udiald_tty_get dims512 (r_uninit one_line_reply) None 2500
      (incoming one_line_reply))) = 2 \<and>
   exit_code_of
     (udiald_identify dims512 (fresh_session UDIALD_APP_SCAN Map.empty) one_line_reply) =
     Some UDIALD_EMODEM"
proof -
  have u: "r_uninit e220_reply = stale_read" and w: "wr_ok e220_reply"
    by (simp_all add: e220_reply_def)
  have u1: "r_uninit one_line_reply = stale_read" and w1: "wr_ok one_line_reply"
    by (simp_all add: one_line_reply_def)
  have fl: "flags (fresh_session UDIALD_APP_SCAN Map.empty) = {}"
    by (simp add: fresh_session_def)
  from identify_counts_the_terminator_line
    [of e220_reply dims512 "fresh_session UDIALD_APP_SCAN Map.empty"]
    identify_counts_the_terminator_line
    [of one_line_reply dims512 "fresh_session UDIALD_APP_SCAN Map.empty"]
  show ?thesis
    by (simp add: u w u1 w1 fl e220_reply_read one_line_reply_read)
qed

text \<open>
  C4, the claim as it stands fails: on the reply \<^verbatim>\<open>Huawei\<close>, \<^verbatim>\<open>E220\<close>, \<^verbatim>\<open>OK\<close>, where two lines
  precede the terminator, the phase does not fail; it stores \<^verbatim>\<open>Huawei E220\<close>.
\<close>

theorem identify_three_lines_counterexample:
  "modem_name_of (udiald_identify dims512 (fresh_session UDIALD_APP_SCAN Map.empty) e220_reply) =
     Some ''Huawei E220'' \<and>
   lines_of dims512 (filled (udiald_tty_get dims512 stale_read None 2500 (incoming e220_reply))) =
     [''Huawei'', ''E220'', ''OK'']"
  by code_simp

subsection \<open>The exit status of the link daemon\<close>

text \<open>
  C6, as amended. When the non-blocking reap finds that the child has exited and the signaled
  flag of the session is clear, its exit status 7 or 16 exits as \<^verbatim>\<open>EMODEM\<close>, 8 as \<^verbatim>\<open>EDIAL\<close>,
  0 or 15 as \<^verbatim>\<open>ENETWORK\<close>, 19 as \<^verbatim>\<open>EAUTH\<close>, 5 or a death by signal as \<^verbatim>\<open>SIGNALED\<close>, any
  other as \<^verbatim>\<open>EPPP\<close>. When the child has not exited by then it is killed and the process
  exits as \<^verbatim>\<open>SIGNALED\<close>, whatever status the child leaves; and with the signaled flag set the
  exit is \<^verbatim>\<open>SIGNALED\<close> in every case.
\<close>

theorem pppd_exit_translation:
  "(UDIALD_FLAG_SIGNALED \<notin> flags st \<longrightarrow>
      exit_code_of (udiald_connect_finish st (Some (WExited n)) late signaled) =
        Some (if n = 5 then UDIALD_ESIGNALED
              else if n = 7 \<or> n = 16 then UDIALD_EMODEM
              else if n = 8 then UDIALD_EDIAL
              else if n = 0 \<or> n = 15 then UDIALD_ENETWORK
              else if n = 19 then UDIALD_EAUTH
              else UDIALD_EPPP) \<and>
      exit_code_of (udiald_connect_finish st (Some (WSignaled k)) late signaled) =
        Some UDIALD_ESIGNALED) \<and>
   exit_code_of (udiald_connect_finish st None late signaled) = Some UDIALD_ESIGNALED \<and>
   (UDIALD_FLAG_SIGNALED \<in> flags st \<longrightarrow>
      exit_code_of (udiald_connect_finish st reaped late signaled) = Some UDIALD_ESIGNALED)"
  by (auto simp add: udiald_connect_finish_def Let_def split: option.splits wait_status.splits)

theorem pppd_exit_translation_witness:
  "UDIALD_FLAG_SIGNALED \<notin> flags (fresh_session UDIALD_APP_CONNECT Map.empty) \<and>
   exit_code_of (udiald_connect_finish (fresh_session UDIALD_APP_CONNECT Map.empty)
      (Some (WExited 19)) (WExited 19) 17) = Some UDIALD_EAUTH \<and>
   exit_code_of (udiald_connect_finish (fresh_session UDIALD_APP_CONNECT Map.empty)
      (Some (WExited 16)) (WExited 16) 17) = Some UDIALD_EMODEM \<and>
   UDIALD_FLAG_SIGNALED \<in>
     flags ((fresh_session UDIALD_APP_CONNECT Map.empty)\<lparr>flags := {UDIALD_FLAG_SIGNALED}\<rparr>) \<and>
   exit_code_of (udiald_connect_finish
      ((fresh_session UDIALD_APP_CONNECT Map.empty)\<lparr>flags := {UDIALD_FLAG_SIGNALED}\<rparr>)
      (Some (WExited 19)) (WExited 19) 15) = Some UDIALD_ESIGNALED"
  using pppd_exit_translation[of "fresh_session UDIALD_APP_CONNECT Map.empty" 19 "WExited 19" 17]
    pppd_exit_translation[of "fresh_session UDIALD_APP_CONNECT Map.empty" 16 "WExited 16" 17]
    pppd_exit_translation
      [of "(fresh_session UDIALD_APP_CONNECT Map.empty)\<lparr>flags := {UDIALD_FLAG_SIGNALED}\<rparr>"
          19 "WExited 19" 15 _ "Some (WExited 19)"]
  by (simp add: fresh_session_def)

text \<open>
  C6, the claim as it stands fails: a child that is still running at the non-blocking reap
  and then exits with status 19 gives the exit \<^verbatim>\<open>SIGNALED\<close>, not \<^verbatim>\<open>EAUTH\<close>.
\<close>

theorem pppd_exit_translation_counterexample:
  "exit_code_of (udiald_connect_finish (fresh_session UDIALD_APP_CONNECT Map.empty)
      None (WExited 19) 15) = Some UDIALD_ESIGNALED \<and>
   UDIALD_ESIGNALED \<noteq> UDIALD_EAUTH"
  by code_simp

subsection \<open>Setting the mode\<close>

text \<open>
  What \<^verbatim>\<open>udiald_set_mode\<close> does, by case: the mode is read from \<^verbatim>\<open>udiald_mode\<close> with \<^verbatim>\<open>auto\<close>
  for an unset or empty value; an unknown name or a mode without command ends through
  \<^verbatim>\<open>EINVAL\<close>; an empty command returns with nothing sent; otherwise the command goes out
  and the reader runs with 5000 ms; the OK tag returns, and any other result that the reader
  returns with ends through \<^verbatim>\<open>EMODEM\<close> once the flattener has returned.
\<close>

lemma set_mode_cases:
  "(udiald_modem_modeval (mode_name st) = None \<longrightarrow>
      udiald_set_mode d st env = udiald_exitcode st UDIALD_EINVAL (Some ''Unsupported mode ()'')) \<and>
   (udiald_modem_modeval (mode_name st) = Some md \<and> profile (modem st) = Some prof \<and>
    modecmd (cfg prof) md = None \<longrightarrow>
      udiald_set_mode d st env =
        udiald_exitcode st UDIALD_EINVAL
          (Some (''Unsupported mode ('' @ udiald_modem_modestr md @ '')''))) \<and>
   (udiald_modem_modeval (mode_name st) = Some md \<and> profile (modem st) = Some prof \<and>
    modecmd (cfg prof) md = Some [] \<longrightarrow>
      udiald_set_mode d st env = Return st) \<and>
   (udiald_modem_modeval (mode_name st) = Some md \<and> profile (modem st) = Some prof \<and>
    modecmd (cfg prof) md = Some cmd \<and> cmd \<noteq> [] \<and> wr_ok env \<and>
    outcome (udiald_tty_get d (r_uninit env) None 5000 (incoming env)) = Tag UDIALD_AT_OK \<longrightarrow>
      udiald_set_mode d st env = Return (sent st cmd)) \<and>
   (udiald_modem_modeval (mode_name st) = Some md \<and> profile (modem st) = Some prof \<and>
    modecmd (cfg prof) md = Some cmd \<and> cmd \<noteq> [] \<and> wr_ok env \<and>
    outcome (udiald_tty_get d (r_uninit env) None 5000 (incoming env)) \<noteq> Tag UDIALD_AT_OK \<and>
    reader_returns (outcome (udiald_tty_get d (r_uninit env) None 5000 (incoming env))) \<longrightarrow>
      udiald_set_mode d st env =
        (case udiald_tty_flatten_result d
                (filled (udiald_tty_get d (r_uninit env) None 5000 (incoming env))) of
           None \<Rightarrow> Hang
         | Some rf \<Rightarrow>
             udiald_exitcode (sent st cmd) UDIALD_EMODEM
               (Some (''Failed to set mode '' @ device_id (modem st) @ '' ('' @
                      udiald_modem_modestr md @ '')''))))"
proof -
  let ?g = "udiald_tty_get d (r_uninit env) None 5000 (incoming env)"
  show ?thesis
    by (cases "outcome ?g")
      (auto simp add: udiald_set_mode_def mode_name_def exchange_of_def struct_after_def
        udiald_tty_put_def Let_def split: option.splits)
qed

lemma huawei_auto:
  "udiald_config_get huawei_session ''udiald_mode'' = None"
  "profile (modem huawei_session) = Some huawei_k3520"
  "modecmd (cfg huawei_k3520) UMTS_MODE_AUTO = Some (''AT^SYSCFG=2,2,40000000,2,4'' @ [CR])"
  "udiald_modem_modeval ''auto'' = Some UMTS_MODE_AUTO"
  by (simp_all add: huawei_session_def fresh_session_def udiald_config_get_def
      ucix_get_option_def huawei_k3520_def profiles_def huawei_syscfg_def
      udiald_modem_modeval_def all_modes_def no_modem_def)

text \<open>
  C7. On a modem bound to the Huawei K3520 profile in mode \<^verbatim>\<open>auto\<close>, with buffers of 64
  bytes, the reply of one line of 57 bytes followed by \<^verbatim>\<open>ERROR\<close> makes the reader return the
  ERROR tag; the phase then flattens the response for its error message, the flattener never
  returns, and the process never exits.
\<close>

theorem set_mode_hangs_on_long_error_reply:
  "udiald_set_mode dims64 huawei_session long_error_env = Hang \<and>
   outcome (udiald_tty_get dims64 (r_uninit long_error_env) None 5000 (incoming long_error_env)) =
     Tag UDIALD_AT_ERROR"
proof -
  have env: "wr_ok long_error_env" "r_uninit long_error_env = stale_read"
    "incoming long_error_env = long_error_reply"
    by (simp_all add: long_error_env_def)
  have mn: "mode_name huawei_session = ''auto''"
    by (simp add: mode_name_def huawei_auto)
  note c = set_mode_cases[where st = huawei_session and md = UMTS_MODE_AUTO
        and prof = huawei_k3520 and cmd = "''AT^SYSCFG=2,2,40000000,2,4'' @ [CR]"
        and env = long_error_env and d = dims64]
  from c show ?thesis
    by (simp add: mn huawei_auto env long_error_reply_outcome long_error_reply_flatten)
qed

subsection \<open>Forbidden characters\<close>

lemma enter_pin_forbidden:
  assumes "effective_pin st = Some p" "strpbrk p pin_forbidden"
  shows "udiald_enter_pin d st env =
     (if app st \<noteq> UDIALD_APP_PROBE
      then udiald_exitcode st UDIALD_EINVAL (Some (''Invalid PIN configured ('' @ p @ '')''))
      else Return st)"
  using assms strpbrk_nonempty[OF assms(2)]
  by (simp add: udiald_enter_pin_def effective_pin_def)

lemma enter_puk_forbidden:
  assumes "strpbrk puk pin_forbidden \<or> strpbrk new_pin pin_forbidden"
  shows "udiald_enter_puk d st puk new_pin env =
     (if sim_state st \<noteq> 2
      then udiald_exitcode st UDIALD_ESIM (Some ''Cannot use PUK - SIM not locked'')
      else udiald_exitcode st UDIALD_EINVAL (Some ''Invalid PIN or PUK''))"
  using assms by (auto simp add: udiald_enter_puk_def)

text \<open>
  C9, as amended. A PIN that contains a double quote, CR, LF or a semicolon is not sent: the
  enter-PIN phase leaves the control line alone and, outside probe mode, ends the process
  through \<^verbatim>\<open>EINVAL\<close>. The same holds for the PUK and the new PIN of the enter-PUK phase (which
  ends through the SIM error first when the SIM does not want a PUK). A user name or password
  that contains a double quote, CR or LF is not written to the configuration file of the
  link daemon: the empty string is written in its place, each of the two values being
  checked on its own, and a value without these characters is written as it is. The
  semicolon is refused in the PIN and the PUK only.
\<close>

theorem forbidden_characters_rejected:
  "(effective_pin st = Some p \<and> strpbrk p pin_forbidden \<longrightarrow>
      sent_by (udiald_enter_pin d st env) = Some (ctl_sent st) \<and>
      (app st = UDIALD_APP_PROBE \<longrightarrow> udiald_enter_pin d st env = Return st) \<and>
      (app st \<noteq> UDIALD_APP_PROBE \<longrightarrow>
         exit_code_of (udiald_enter_pin d st env) =
           Some (if UDIALD_FLAG_SIGNALED \<in> flags st then UDIALD_ESIGNALED else UDIALD_EINVAL))) \<and>
   (strpbrk puk pin_forbidden \<or> strpbrk new_pin pin_forbidden \<longrightarrow>
      sent_by (udiald_enter_puk d st puk new_pin env) = Some (ctl_sent st) \<and>
      exit_code_of (udiald_enter_puk d st puk new_pin env) =
        Some (if UDIALD_FLAG_SIGNALED \<in> flags st then UDIALD_ESIGNALED
              else if sim_state st \<noteq> 2 then UDIALD_ESIM else UDIALD_EINVAL)) \<and>
   (strpbrk u pppd_forbidden \<longrightarrow> pppd_credential (Some u) = []) \<and>
   (udiald_config_get st ''udiald_user'' = Some u \<and> strpbrk u pppd_forbidden \<longrightarrow>
      take 8 (pppd_auth_lines st) = ''user '' @ [DQUOTE, DQUOTE, LF]) \<and>
   (udiald_config_get st ''udiald_pass'' = Some pw \<and> strpbrk pw pppd_forbidden \<longrightarrow>
      pppd_auth_lines st =
        ''user '' @ [DQUOTE] @
        (if strpbrk (config_value st ''udiald_user'') pppd_forbidden then []
         else config_value st ''udiald_user'') @ [DQUOTE, LF] @
        ''password '' @ [DQUOTE, DQUOTE, LF]) \<and>
   pppd_auth_lines st =
     ''user '' @ [DQUOTE] @
     (if strpbrk (config_value st ''udiald_user'') pppd_forbidden then []
      else config_value st ''udiald_user'') @ [DQUOTE, LF] @
     ''password '' @ [DQUOTE] @
     (if strpbrk (config_value st ''udiald_pass'') pppd_forbidden then []
      else config_value st ''udiald_pass'') @ [DQUOTE, LF] \<and>
   (strpbrk s pin_forbidden \<longleftrightarrow> (\<exists>ch \<in> set s. ch \<in> {DQUOTE, CR, LF, CHR '';''})) \<and>
   (strpbrk s pppd_forbidden \<longleftrightarrow> (\<exists>ch \<in> set s. ch \<in> {DQUOTE, CR, LF}))"
proof -
  have a: "effective_pin st = Some p \<and> strpbrk p pin_forbidden \<longrightarrow>
      sent_by (udiald_enter_pin d st env) = Some (ctl_sent st) \<and>
      (app st = UDIALD_APP_PROBE \<longrightarrow> udiald_enter_pin d st env = Return st) \<and>
      (app st \<noteq> UDIALD_APP_PROBE \<longrightarrow>
         exit_code_of (udiald_enter_pin d st env) =
           Some (if UDIALD_FLAG_SIGNALED \<in> flags st then UDIALD_ESIGNALED else UDIALD_EINVAL))"
    by (simp add: enter_pin_forbidden)
  have b: "strpbrk puk pin_forbidden \<or> strpbrk new_pin pin_forbidden \<longrightarrow>
      sent_by (udiald_enter_puk d st puk new_pin env) = Some (ctl_sent st) \<and>
      exit_code_of (udiald_enter_puk d st puk new_pin env) =
        Some (if UDIALD_FLAG_SIGNALED \<in> flags st then UDIALD_ESIGNALED
              else if sim_state st \<noteq> 2 then UDIALD_ESIM else UDIALD_EINVAL)"
    by (simp add: enter_puk_forbidden)
  have c: "strpbrk u pppd_forbidden \<longrightarrow> pppd_credential (Some u) = []"
    by (simp add: pppd_credential_def)
  have e: "udiald_config_get st ''udiald_user'' = Some u \<and> strpbrk u pppd_forbidden \<longrightarrow>
      take 8 (pppd_auth_lines st) = ''user '' @ [DQUOTE, DQUOTE, LF]"
    by (simp add: pppd_auth_lines_def pppd_credential_def)
  have h: "pppd_auth_lines st =
     ''user '' @ [DQUOTE] @
     (if strpbrk (config_value st ''udiald_user'') pppd_forbidden then []
      else config_value st ''udiald_user'') @ [DQUOTE, LF] @
     ''password '' @ [DQUOTE] @
     (if strpbrk (config_value st ''udiald_pass'') pppd_forbidden then []
      else config_value st ''udiald_pass'') @ [DQUOTE, LF]"
    by (simp add: pppd_auth_lines_def pppd_credential_def config_value_def
        split: option.splits)
  have i: "udiald_config_get st ''udiald_pass'' = Some pw \<and> strpbrk pw pppd_forbidden \<longrightarrow>
      pppd_auth_lines st =
        ''user '' @ [DQUOTE] @
        (if strpbrk (config_value st ''udiald_user'') pppd_forbidden then []
         else config_value st ''udiald_user'') @ [DQUOTE, LF] @
        ''password '' @ [DQUOTE, DQUOTE, LF]"
    by (simp add: pppd_auth_lines_def pppd_credential_def config_value_def
        split: option.splits)
  have f: "strpbrk s pin_forbidden \<longleftrightarrow> (\<exists>ch \<in> set s. ch \<in> {DQUOTE, CR, LF, CHR '';''})"
    by (simp add: strpbrk_iff pin_forbidden_def)
  have g: "strpbrk s pppd_forbidden \<longleftrightarrow> (\<exists>ch \<in> set s. ch \<in> {DQUOTE, CR, LF})"
    by (simp add: strpbrk_iff pppd_forbidden_def)
  from a b c e i h f g show ?thesis by blast
qed

lemma forbidden_examples:
  "effective_pin ((fresh_session UDIALD_APP_UNLOCK Map.empty)\<lparr>pin := Some ''12;34''\<rparr>) =
     Some ''12;34''"
  "strpbrk ''12;34'' pin_forbidden"
  "strpbrk (''a'' @ [DQUOTE] @ ''b'') pppd_forbidden"
  "udiald_config_get (fresh_session UDIALD_APP_CONNECT quote_store) ''udiald_user'' =
     Some (''a'' @ [DQUOTE] @ ''b'')"
  "strpbrk (''p'' @ [CR] @ ''q'') pppd_forbidden"
  "udiald_config_get (fresh_session UDIALD_APP_CONNECT quote_store) ''udiald_pass'' =
     Some (''p'' @ [CR] @ ''q'')"
  "config_value (fresh_session UDIALD_APP_CONNECT quote_store) ''udiald_user'' =
     ''a'' @ [DQUOTE] @ ''b''"
  by code_simp+

theorem forbidden_characters_rejected_witness:
  "effective_pin ((fresh_session UDIALD_APP_UNLOCK Map.empty)\<lparr>pin := Some ''12;34''\<rparr>) =
     Some ''12;34'' \<and>
   strpbrk ''12;34'' pin_forbidden \<and>
   sent_by (udiald_enter_pin dims512
      ((fresh_session UDIALD_APP_UNLOCK Map.empty)\<lparr>pin := Some ''12;34''\<rparr>) quiet_line) =
     Some [] \<and>
   exit_code_of (udiald_enter_pin dims512
      ((fresh_session UDIALD_APP_UNLOCK Map.empty)\<lparr>pin := Some ''12;34''\<rparr>) quiet_line) =
     Some UDIALD_EINVAL \<and>
   sent_by (udiald_enter_puk dims512
      ((fresh_session UDIALD_APP_PINPUK Map.empty)\<lparr>sim_state := 2\<rparr>) ''87654321'' ''12;34''
      quiet_line) = Some [] \<and>
   exit_code_of (udiald_enter_puk dims512
      ((fresh_session UDIALD_APP_PINPUK Map.empty)\<lparr>sim_state := 2\<rparr>) ''87654321'' ''12;34''
      quiet_line) = Some UDIALD_EINVAL \<and>
   strpbrk (''a'' @ [DQUOTE] @ ''b'') pppd_forbidden \<and>
   take 8 (pppd_auth_lines (fresh_session UDIALD_APP_CONNECT quote_store)) =
     ''user '' @ [DQUOTE, DQUOTE, LF] \<and>
   strpbrk (''p'' @ [CR] @ ''q'') pppd_forbidden \<and>
   pppd_auth_lines (fresh_session UDIALD_APP_CONNECT quote_store) =
     ''user '' @ [DQUOTE, DQUOTE, LF] @ ''password '' @ [DQUOTE, DQUOTE, LF]"
proof -
  let ?pin = "(fresh_session UDIALD_APP_UNLOCK Map.empty)\<lparr>pin := Some ''12;34''\<rparr>"
  let ?puk = "(fresh_session UDIALD_APP_PINPUK Map.empty)\<lparr>sim_state := 2\<rparr>"
  let ?ppp = "fresh_session UDIALD_APP_CONNECT quote_store"
  note ex = forbidden_examples
  from forbidden_characters_rejected
    [where st = ?pin and p = "''12;34''" and d = dims512 and env = quiet_line
       and puk = "[]" and new_pin = "[]" and u = "[]" and pw = "[]" and s = "[]"]
    ex(1,2)
  have a: "sent_by (udiald_enter_pin dims512 ?pin quiet_line) = Some [] \<and>
      exit_code_of (udiald_enter_pin dims512 ?pin quiet_line) = Some UDIALD_EINVAL"
    by (simp add: fresh_session_def)
  from forbidden_characters_rejected
    [where st = ?puk and p = "[]" and d = dims512 and env = quiet_line
       and puk = "''87654321''" and new_pin = "''12;34''" and u = "[]" and pw = "[]"
       and s = "[]"]
    ex(2)
  have b: "sent_by (udiald_enter_puk dims512 ?puk ''87654321'' ''12;34'' quiet_line) = Some [] \<and>
      exit_code_of (udiald_enter_puk dims512 ?puk ''87654321'' ''12;34'' quiet_line) =
        Some UDIALD_EINVAL"
    by (simp add: fresh_session_def)
  note inst = forbidden_characters_rejected
    [where st = ?ppp and p = "[]" and d = dims512 and env = quiet_line
       and puk = "[]" and new_pin = "[]" and u = "''a'' @ [DQUOTE] @ ''b''"
       and pw = "''p'' @ [CR] @ ''q''" and s = "[]"]
  from inst ex(3,4)
  have c: "take 8 (pppd_auth_lines ?ppp) = ''user '' @ [DQUOTE, DQUOTE, LF]"
    by blast
  from inst ex(5,6)
  have "pppd_auth_lines ?ppp =
      ''user '' @ [DQUOTE] @
      (if strpbrk (config_value ?ppp ''udiald_user'') pppd_forbidden then []
       else config_value ?ppp ''udiald_user'') @ [DQUOTE, LF] @
      ''password '' @ [DQUOTE, DQUOTE, LF]"
    by blast
  with ex(3,7)
  have e: "pppd_auth_lines ?ppp =
      ''user '' @ [DQUOTE, DQUOTE, LF] @ ''password '' @ [DQUOTE, DQUOTE, LF]"
    by simp
  from a b c e ex(1,2,3,5) show ?thesis by blast
qed

text \<open>
  C9, the claim as it stands fails: a user name and a password with a semicolon are written
  to the configuration file of the link daemon as they are.
\<close>

theorem semicolon_credentials_counterexample:
  "pppd_auth_lines (fresh_session UDIALD_APP_CONNECT semicolon_store) =
     ''user '' @ [DQUOTE] @ ''a;b'' @ [DQUOTE, LF] @
     ''password '' @ [DQUOTE] @ ''p;q'' @ [DQUOTE, LF] \<and>
   strpbrk ''a;b'' pin_forbidden"
  by code_simp

subsection \<open>Selecting the modem\<close>

lemma foldl_modes_keep [simp]:
  "filter_spec (foldl (\<lambda>s i. if P i then udiald_config_append s k (f i) else s) st ms) =
     filter_spec st"
  "modem (foldl (\<lambda>s i. if P i then udiald_config_append s k (f i) else s) st ms) = modem st"
  by (induction ms arbitrary: st) simp_all








text \<open>
  With a profile name in the filter, a device whose own profile has another name, or that no
  profile matches, is passed over; alone on the bus it leaves no usable modem.
\<close>

lemma named_profile_selection:
  "map_option device_id
     (selected_modem (udiald_main_select
        ((fresh_session UDIALD_APP_SCAN Map.empty)
           \<lparr>filter_spec := no_filter\<lparr>filter_profile_name := Some ''Huawei K3520''\<rparr>\<rparr>)
        two_candidates)) = Some ''1-2''"
  "map_option exit_code_of
     (selection (udiald_main_select
        ((fresh_session UDIALD_APP_SCAN Map.empty)
           \<lparr>filter_spec := no_filter\<lparr>filter_profile_name := Some ''Huawei K3520''\<rparr>\<rparr>)
        [two_candidates ! 0])) = Some (Some UDIALD_ENODEV)"
  "map_option exit_code_of
     (selection (udiald_main_select
        ((fresh_session UDIALD_APP_SCAN Map.empty)
           \<lparr>filter_spec := no_filter\<lparr>filter_profile_name := Some ''Huawei generic''\<rparr>\<rparr>)
        two_candidates)) = Some (Some UDIALD_ENODEV)"
  by code_simp+


end
